theory Spec2Isabelle
  imports Complex_Main "HOL-Library.Word"
begin

section \<open>JavaScript numbers and values\<close>

text \<open>
  A JavaScript number is a real, or one of the three special values \<open>NaN\<close>, \<open>+Infinity\<close>
  and \<open>-Infinity\<close>. The special values follow IEEE 754. The operators are exact on finite
  values: the rounding of a finite result to 53 bits and its overflow to an infinity are
  not modelled, so the statements below about computed figures speak of the operators
  \<open>jmul\<close>, \<open>jadd\<close>, \<open>jsub\<close> and \<open>jdiv\<close>, and not of the real arithmetic behind them.
  The two zeros are one value: the program compares them, which does not tell them
  apart, and it divides only by a number it has tested against zero, by 100 and by the
  length of a list that is not empty.
\<close>

datatype jsnum = NaN | Fin real | PInf | NInf

text \<open>
  The number that a decimal literal of mathematical value \<open>x\<close> denotes, as far as its
  range goes: an infinity from \<open>2^1024 - 2^970\<close> on (the least magnitude that rounding to
  the nearest number does not take to the greatest finite one) and zero up to \<open>2^-1075\<close>
  (half the least positive number: the tie goes to the even neighbour, zero). What the
  validation tests of a number it has read, whether it is \<open>NaN\<close>, negative or zero, is
  decided by this.
\<close>

definition number_of :: "real \<Rightarrow> jsnum" where
  "number_of x =
     (if 2 ^ 1024 - 2 ^ 970 \<le> \<bar>x\<bar> then (if 0 < x then PInf else NInf)
      else if \<bar>x\<bar> \<le> 1 / 2 ^ 1075 then Fin 0
      else Fin x)"

text \<open>
  A string of the language is a sequence of 16-bit code units; \<open>utf16\<close> gives the code
  units of a text of ASCII characters.
\<close>

type_synonym jstring = "16 word list"

definition utf16 :: "string \<Rightarrow> jstring" where
  "utf16 s = map of_char s"

text \<open>The values a field of an input object holds: absent, \<open>null\<close>, a string or a number.\<close>

datatype jsval = Undefined | Null | Str jstring | Num jsnum

datatype js_error = TypeError

fun jsign :: "jsnum \<Rightarrow> int" where
  "jsign NaN = 0"
| "jsign (Fin a) = (if a < 0 then - 1 else if a = 0 then 0 else 1)"
| "jsign PInf = 1"
| "jsign NInf = - 1"

definition inf_of_sign :: "int \<Rightarrow> jsnum" where
  "inf_of_sign s = (if s = 0 then NaN else if 0 < s then PInf else NInf)"

fun jmul :: "jsnum \<Rightarrow> jsnum \<Rightarrow> jsnum" where
  "jmul NaN y = NaN"
| "jmul x NaN = NaN"
| "jmul (Fin a) (Fin b) = Fin (a * b)"
| "jmul x y = inf_of_sign (jsign x * jsign y)"

fun jadd :: "jsnum \<Rightarrow> jsnum \<Rightarrow> jsnum" where
  "jadd NaN y = NaN"
| "jadd x NaN = NaN"
| "jadd (Fin a) (Fin b) = Fin (a + b)"
| "jadd PInf NInf = NaN"
| "jadd NInf PInf = NaN"
| "jadd PInf y = PInf"
| "jadd x PInf = PInf"
| "jadd NInf y = NInf"
| "jadd x NInf = NInf"

fun jneg :: "jsnum \<Rightarrow> jsnum" where
  "jneg NaN = NaN"
| "jneg (Fin a) = Fin (- a)"
| "jneg PInf = NInf"
| "jneg NInf = PInf"

definition jsub :: "jsnum \<Rightarrow> jsnum \<Rightarrow> jsnum" where
  "jsub x y = jadd x (jneg y)"

fun jdiv :: "jsnum \<Rightarrow> jsnum \<Rightarrow> jsnum" where
  "jdiv NaN y = NaN"
| "jdiv x NaN = NaN"
| "jdiv (Fin a) (Fin b) =
     (if b \<noteq> 0 then Fin (a / b) else if a = 0 then NaN else if 0 < a then PInf else NInf)"
| "jdiv (Fin a) y = Fin 0"
| "jdiv PInf (Fin b) = (if b < 0 then NInf else PInf)"
| "jdiv NInf (Fin b) = (if b < 0 then PInf else NInf)"
| "jdiv x y = NaN"

fun jlt :: "jsnum \<Rightarrow> jsnum \<Rightarrow> bool" where
  "jlt NaN y = False"
| "jlt x NaN = False"
| "jlt (Fin a) (Fin b) = (a < b)"
| "jlt NInf NInf = False"
| "jlt NInf y = True"
| "jlt x NInf = False"
| "jlt PInf y = False"
| "jlt x PInf = True"

definition jle :: "jsnum \<Rightarrow> jsnum \<Rightarrow> bool" where
  "jle x y = (jlt x y \<or> (x \<noteq> NaN \<and> x = y))"

definition jgt :: "jsnum \<Rightarrow> jsnum \<Rightarrow> bool" where
  "jgt x y = jlt y x"

definition jge :: "jsnum \<Rightarrow> jsnum \<Rightarrow> bool" where
  "jge x y = jle y x"

definition isNaN :: "jsnum \<Rightarrow> bool" where
  "isNaN x = (x = NaN)"

text \<open>\<open>x || 0\<close> on a number: \<open>NaN\<close> and \<open>0\<close> are falsy.\<close>

definition or0 :: "jsnum \<Rightarrow> jsnum" where
  "or0 x = (if x = NaN \<or> x = Fin 0 then Fin 0 else x)"

subsection \<open>\<open>parseFloat\<close> and \<open>trim\<close>\<close>

text \<open>
  White space is what \<open>trim\<close> and \<open>parseFloat\<close> strip: the white space and the line
  terminators of the language, which are TAB, LF, VT, FF, CR, the space, the no-break
  space, the byte order mark, the line and paragraph separators and the other space
  separators of Unicode, all of them single code units.
\<close>

definition is_ws :: "16 word \<Rightarrow> bool" where
  "is_ws c =
     (c \<in> set [0x0009, 0x000A, 0x000B, 0x000C, 0x000D, 0x0020, 0x00A0, 0x1680, 0x2028,
                0x2029, 0x202F, 0x205F, 0x3000, 0xFEFF]
      \<or> (0x2000 \<le> c \<and> c \<le> 0x200A))"

definition trim :: "jstring \<Rightarrow> jstring" where
  "trim s = rev (dropWhile is_ws (rev (dropWhile is_ws s)))"

definition is_digit :: "16 word \<Rightarrow> bool" where
  "is_digit c = (c \<in> set (utf16 ''0123456789''))"

text \<open>The value of a digit is its position in the string of the ten digits.\<close>

definition digit_val :: "16 word \<Rightarrow> nat" where
  "digit_val c = length (takeWhile (\<lambda>d. d \<noteq> c) (utf16 ''0123456789''))"

definition digits_val :: "jstring \<Rightarrow> nat" where
  "digits_val ds = foldl (\<lambda>a c. 10 * a + digit_val c) 0 ds"

text \<open>The value of an exponent part \<open>e\<close>, \<open>e+\<close> or \<open>e-\<close> followed by digits at the head of
  the string; 0 when the string does not start with a complete exponent part.\<close>

definition signed_integer :: "jstring \<Rightarrow> int" where
  "signed_integer cs =
     (case cs of
        [] \<Rightarrow> 0
      | s # ds \<Rightarrow>
          if s = of_char (CHR ''+'') then int (digits_val (takeWhile is_digit ds))
          else if s = of_char (CHR ''-'') then - int (digits_val (takeWhile is_digit ds))
          else int (digits_val (takeWhile is_digit cs)))"

definition exponent_part :: "jstring \<Rightarrow> int" where
  "exponent_part cs =
     (case cs of
        [] \<Rightarrow> 0
      | c # r \<Rightarrow>
          if c = of_char (CHR ''e'') \<or> c = of_char (CHR ''E'') then signed_integer r else 0)"

definition scale10 :: "real \<Rightarrow> int \<Rightarrow> real" where
  "scale10 m e = (if 0 \<le> e then m * 10 ^ nat e else m / 10 ^ nat (- e))"

text \<open>The longest prefix that is an unsigned decimal literal: \<open>Infinity\<close>, or digits with
  an optional fraction and exponent, at least one digit before or after the point. The
  mathematical value of the literal becomes a number by \<open>number_of\<close>.\<close>

definition parse_unsigned :: "jstring \<Rightarrow> jsnum" where
  "parse_unsigned cs =
     (if take 8 cs = utf16 ''Infinity'' then PInf
      else
        let ip = takeWhile is_digit cs;
            r1 = dropWhile is_digit cs;
            fp = (case r1 of [] \<Rightarrow> []
                  | d # r \<Rightarrow> if d = of_char (CHR ''.'') then takeWhile is_digit r else []);
            r2 = (case r1 of [] \<Rightarrow> []
                  | d # r \<Rightarrow> if d = of_char (CHR ''.'') then dropWhile is_digit r else r1)
        in if ip = [] \<and> fp = [] then NaN
           else number_of
                  (scale10 (real (digits_val (ip @ fp))) (exponent_part r2 - int (length fp))))"

definition parse_str :: "jstring \<Rightarrow> jsnum" where
  "parse_str s =
     (case dropWhile is_ws s of
        [] \<Rightarrow> NaN
      | c # cs \<Rightarrow>
          if c = of_char (CHR ''-'') then jneg (parse_unsigned cs)
          else if c = of_char (CHR ''+'') then parse_unsigned cs
          else parse_unsigned (c # cs))"

text \<open>\<open>parseFloat\<close> converts its argument to a string first: \<open>undefined\<close> and \<open>null\<close>
  give \<open>NaN\<close>, and a number prints and parses back to itself.\<close>

fun parseFloat :: "jsval \<Rightarrow> jsnum" where
  "parseFloat Undefined = NaN"
| "parseFloat Null = NaN"
| "parseFloat (Str s) = parse_str s"
| "parseFloat (Num n) = n"

section \<open>Calculator module\<close>

record calc_input =
  cropType :: jsval
  acreage :: jsval
  yieldPerAcre :: jsval
  marketPrice :: jsval
  seedCost :: jsval
  fertilizerCost :: jsval
  chemicalCost :: jsval
  laborCost :: jsval
  equipmentCost :: jsval
  miscCost :: jsval

record validation =
  isValid :: bool
  errors :: "string list"

text \<open>\<open>inputs[field]\<close> for a field name.\<close>

definition input_field :: "calc_input \<Rightarrow> string \<Rightarrow> jsval" where
  "input_field inputs field =
     (if field = ''cropType'' then cropType inputs
      else if field = ''acreage'' then acreage inputs
      else if field = ''yieldPerAcre'' then yieldPerAcre inputs
      else if field = ''marketPrice'' then marketPrice inputs
      else if field = ''seedCost'' then seedCost inputs
      else if field = ''fertilizerCost'' then fertilizerCost inputs
      else if field = ''chemicalCost'' then chemicalCost inputs
      else if field = ''laborCost'' then laborCost inputs
      else if field = ''equipmentCost'' then equipmentCost inputs
      else if field = ''miscCost'' then miscCost inputs
      else Undefined)"

text \<open>\<open>v === undefined || v === null || v === ''\<close>\<close>

definition is_blank :: "jsval \<Rightarrow> bool" where
  "is_blank v = (v = Undefined \<or> v = Null \<or> v = Str [])"

text \<open>
  \<open>!inputs.cropType || inputs.cropType.trim() === ''\<close>: whether the crop-type message is
  pushed. A truthy number has no \<open>trim\<close> method, and the call raises.
\<close>

fun crop_type_missing :: "jsval \<Rightarrow> js_error + bool" where
  "crop_type_missing Undefined = Inr True"
| "crop_type_missing Null = Inr True"
| "crop_type_missing (Str s) = Inr (s = [] \<or> trim s = [])"
| "crop_type_missing (Num n) = (if n = NaN \<or> n = Fin 0 then Inr True else Inl TypeError)"

definition costFields :: "string list" where
  "costFields =
     [''seedCost'', ''fertilizerCost'', ''chemicalCost'', ''laborCost'', ''equipmentCost'',
      ''miscCost'']"

text \<open>One pass of the \<open>forEach\<close> over the cost fields: the error list after the field.\<close>

definition check_cost :: "calc_input \<Rightarrow> string list \<Rightarrow> string \<Rightarrow> string list" where
  "check_cost inputs errs field =
     (if \<not> is_blank (input_field inputs field) then
        (if isNaN (parseFloat (input_field inputs field))
            \<or> jlt (parseFloat (input_field inputs field)) (Fin 0)
         then errs @ [field @ '' cannot be negative'']
         else errs)
      else errs)"

definition validateInputs :: "calc_input \<Rightarrow> js_error + validation" where
  "validateInputs inputs =
     (case crop_type_missing (cropType inputs) of
        Inl e \<Rightarrow> Inl e
      | Inr crop_missing \<Rightarrow>
          let errors0 = (if crop_missing then [''Crop type is required''] else []);
              errors1 =
                (if is_blank (acreage inputs) then errors0 @ [''Acres planted is required'']
                 else if isNaN (parseFloat (acreage inputs))
                         \<or> jle (parseFloat (acreage inputs)) (Fin 0)
                 then errors0 @ [''Acres planted must be greater than 0'']
                 else errors0);
              errors2 =
                (if is_blank (yieldPerAcre inputs) then errors1 @ [''Expected yield is required'']
                 else if isNaN (parseFloat (yieldPerAcre inputs))
                         \<or> jlt (parseFloat (yieldPerAcre inputs)) (Fin 0)
                 then errors1 @ [''Expected yield cannot be negative'']
                 else errors1);
              errors3 =
                (if is_blank (marketPrice inputs) then errors2 @ [''Market price is required'']
                 else if isNaN (parseFloat (marketPrice inputs))
                         \<or> jlt (parseFloat (marketPrice inputs)) (Fin 0)
                 then errors2 @ [''Market price cannot be negative'']
                 else errors2);
              errors4 = foldl (check_cost inputs) errors3 costFields
          in Inr \<lparr>isValid = (length errors4 = 0), errors = errors4\<rparr>)"

text \<open>The helpers parse their arguments, whatever they are given.\<close>

definition calculateProduction :: "jsval \<Rightarrow> jsval \<Rightarrow> jsnum" where
  "calculateProduction acres yield = jmul (parseFloat acres) (parseFloat yield)"

definition calculateRevenue :: "jsval \<Rightarrow> jsval \<Rightarrow> jsnum" where
  "calculateRevenue production price = jmul (parseFloat production) (parseFloat price)"

text \<open>The cost object is the list of its entries, in key order (\<open>Object.keys\<close>);
  \<open>add_cost\<close> is the function given to \<open>reduce\<close>.\<close>

definition add_cost :: "jsnum \<Rightarrow> string \<times> jsval \<Rightarrow> jsnum" where
  "add_cost acc entry =
     (let costValue = or0 (parseFloat (snd entry))
      in jadd acc (if jge costValue (Fin 0) then costValue else Fin 0))"

definition calculateTotalCost :: "jsval \<Rightarrow> (string \<times> jsval) list \<Rightarrow> jsnum" where
  "calculateTotalCost acres costs = jmul (parseFloat acres) (foldl add_cost (Fin 0) costs)"

definition calculateNetProfit :: "jsval \<Rightarrow> jsval \<Rightarrow> jsnum" where
  "calculateNetProfit revenue totalCost = jsub (parseFloat revenue) (parseFloat totalCost)"

definition calculateProfitPerAcre :: "jsval \<Rightarrow> jsval \<Rightarrow> jsnum" where
  "calculateProfitPerAcre netProfit acres =
     (if parseFloat acres = Fin 0 then Fin 0
      else jdiv (parseFloat netProfit) (parseFloat acres))"

definition calculateProfitMargin :: "jsval \<Rightarrow> jsval \<Rightarrow> jsnum" where
  "calculateProfitMargin netProfit revenue =
     (if parseFloat revenue = Fin 0 then Fin 0
      else jmul (jdiv (parseFloat netProfit) (parseFloat revenue)) (Fin 100))"

definition calculateCostPerUnit :: "jsval \<Rightarrow> jsval \<Rightarrow> jsnum" where
  "calculateCostPerUnit totalCost production =
     (if parseFloat production = Fin 0 then Fin 0
      else jdiv (parseFloat totalCost) (parseFloat production))"

record cost_breakdown =
  cb_seedCost :: jsnum
  cb_fertilizerCost :: jsnum
  cb_chemicalCost :: jsnum
  cb_laborCost :: jsnum
  cb_equipmentCost :: jsnum
  cb_miscCost :: jsnum

definition cost_entries :: "cost_breakdown \<Rightarrow> (string \<times> jsval) list" where
  "cost_entries c =
     [(''seedCost'', Num (cb_seedCost c)), (''fertilizerCost'', Num (cb_fertilizerCost c)),
      (''chemicalCost'', Num (cb_chemicalCost c)), (''laborCost'', Num (cb_laborCost c)),
      (''equipmentCost'', Num (cb_equipmentCost c)), (''miscCost'', Num (cb_miscCost c))]"

text \<open>The \<open>data\<close> object of a successful result; the fields that echo an input carry the
  prefix \<open>r_\<close> where the input record has the name already.\<close>

record calc_data =
  r_cropType :: jsval
  acres :: jsnum
  r_yieldPerAcre :: jsnum
  r_marketPrice :: jsnum
  production :: jsnum
  revenue :: jsnum
  totalCost :: jsnum
  costBreakdown :: cost_breakdown
  costPerAcre :: jsnum
  costPerUnit :: jsnum
  netProfit :: jsnum
  profitPerAcre :: jsnum
  profitMargin :: jsnum
  calculatedAt :: string

datatype calc_result = Success calc_data | Failure "string list"

text \<open>
  \<open>calculateProfitability\<close> reads the clock for \<open>calculatedAt\<close>; the time is the first
  argument. \<open>profitability_data\<close> is the body of the \<open>try\<close> block: nothing in it raises,
  so the \<open>catch\<close> branch has no counterpart here. The validation runs before the \<open>try\<close>
  block, so its \<open>TypeError\<close> reaches the caller.
\<close>

definition profitability_data :: "string \<Rightarrow> calc_input \<Rightarrow> calc_data" where
  "profitability_data now inputs =
     (let acres_v = parseFloat (acreage inputs);
          yield_v = parseFloat (yieldPerAcre inputs);
          price_v = parseFloat (marketPrice inputs);
          costs = \<lparr>cb_seedCost = or0 (parseFloat (seedCost inputs)),
                   cb_fertilizerCost = or0 (parseFloat (fertilizerCost inputs)),
                   cb_chemicalCost = or0 (parseFloat (chemicalCost inputs)),
                   cb_laborCost = or0 (parseFloat (laborCost inputs)),
                   cb_equipmentCost = or0 (parseFloat (equipmentCost inputs)),
                   cb_miscCost = or0 (parseFloat (miscCost inputs))\<rparr>;
          production_v = calculateProduction (Num acres_v) (Num yield_v);
          revenue_v = calculateRevenue (Num production_v) (Num price_v);
          totalCost_v = calculateTotalCost (Num acres_v) (cost_entries costs);
          netProfit_v = calculateNetProfit (Num revenue_v) (Num totalCost_v);
          profitPerAcre_v = calculateProfitPerAcre (Num netProfit_v) (Num acres_v);
          profitMargin_v = calculateProfitMargin (Num netProfit_v) (Num revenue_v);
          costPerUnit_v = calculateCostPerUnit (Num totalCost_v) (Num production_v)
      in \<lparr>r_cropType = cropType inputs,
          acres = acres_v,
          r_yieldPerAcre = yield_v,
          r_marketPrice = price_v,
          production = production_v,
          revenue = revenue_v,
          totalCost = totalCost_v,
          costBreakdown = costs,
          costPerAcre = jdiv totalCost_v acres_v,
          costPerUnit = costPerUnit_v,
          netProfit = netProfit_v,
          profitPerAcre = profitPerAcre_v,
          profitMargin = profitMargin_v,
          calculatedAt = now\<rparr>)"

definition calculateProfitability :: "string \<Rightarrow> calc_input \<Rightarrow> js_error + calc_result" where
  "calculateProfitability now inputs =
     (case validateInputs inputs of
        Inl e \<Rightarrow> Inl e
      | Inr validation \<Rightarrow>
          if \<not> isValid validation then Inr (Failure (errors validation))
          else Inr (Success (profitability_data now inputs)))"

text \<open>
  \<open>whatIfPriceChange\<close>. The scenario name is a template literal around the printed
  number; it is kept as its two pieces, the sign prefix and the number, since printing
  numbers is not modelled.
\<close>

record price_change =
  originalPrice :: jsnum
  newPrice :: jsnum
  changePercent :: jsnum

record what_if =
  originalCalculation :: calc_result
  newCalculation :: calc_result
  scenarioName :: "string \<times> jsnum"
  priceChange :: price_change

definition whatIfPriceChange ::
  "string \<Rightarrow> calc_result \<Rightarrow> jsnum \<Rightarrow> js_error + what_if option" where
  "whatIfPriceChange now calculation priceChangePercent =
     (case calculation of
        Failure errs \<Rightarrow> Inr None
      | Success d \<Rightarrow>
          let originalPrice_v = r_marketPrice d;
              newPrice_v =
                jmul originalPrice_v (jadd (Fin 1) (jdiv priceChangePercent (Fin 100)));
              modifiedInputs =
                \<lparr>cropType = r_cropType d,
                 acreage = Num (acres d),
                 yieldPerAcre = Num (r_yieldPerAcre d),
                 marketPrice = Num newPrice_v,
                 seedCost = Num (cb_seedCost (costBreakdown d)),
                 fertilizerCost = Num (cb_fertilizerCost (costBreakdown d)),
                 chemicalCost = Num (cb_chemicalCost (costBreakdown d)),
                 laborCost = Num (cb_laborCost (costBreakdown d)),
                 equipmentCost = Num (cb_equipmentCost (costBreakdown d)),
                 miscCost = Num (cb_miscCost (costBreakdown d))\<rparr>
          in (case calculateProfitability now modifiedInputs of
                Inl e \<Rightarrow> Inl e
              | Inr newCalculation_v \<Rightarrow>
                  Inr (Some
                    \<lparr>originalCalculation = calculation,
                     newCalculation = newCalculation_v,
                     scenarioName =
                       (if jgt priceChangePercent (Fin 0) then ''+'' else [],
                        priceChangePercent),
                     priceChange =
                       \<lparr>originalPrice = originalPrice_v,
                        newPrice = newPrice_v,
                        changePercent = priceChangePercent\<rparr>\<rparr>)))"

text \<open>
  \<open>compareScenarios\<close> reads only the \<open>calculation\<close> of a scenario; the rest of the
  scenario object is the field \<open>info\<close>. An absent or \<open>null\<close> calculation is \<open>None\<close>.
\<close>

record 'a scenario =
  info :: 'a
  calculation :: "calc_result option"

record comparison_totals =
  totalRevenue :: jsnum
  cmp_totalCost :: jsnum
  totalProfit :: jsnum
  averageProfitPerAcre :: jsnum

record 'a comparison =
  totalScenarios :: nat
  bestProfit :: "'a scenario"
  bestProfitPerAcre :: "'a scenario"
  scenarios :: "'a scenario list"
  comparison :: comparison_totals

text \<open>\<open>s.calculation && s.calculation.success\<close>, with the data the later steps read.\<close>

definition valid_data :: "'a scenario \<Rightarrow> ('a scenario \<times> calc_data) option" where
  "valid_data s = (case calculation s of Some (Success d) \<Rightarrow> Some (s, d) | _ \<Rightarrow> None)"

text \<open>\<open>Array.prototype.reduce\<close> without an initial value, on a non-empty array.\<close>

definition reduce1 :: "('a \<Rightarrow> 'a \<Rightarrow> 'a) \<Rightarrow> 'a \<Rightarrow> 'a list \<Rightarrow> 'a" where
  "reduce1 f x xs = foldl f x xs"

definition compareScenarios :: "'a scenario list \<Rightarrow> 'a comparison option" where
  "compareScenarios scs =
     (if length scs = 0 then None
      else
        (case List.map_filter valid_data scs of
           [] \<Rightarrow> None
         | v # vs \<Rightarrow>
             let validScenarios = v # vs;
                 bestProfit_v =
                   reduce1 (\<lambda>best current.
                      if jgt (netProfit (snd current)) (netProfit (snd best)) then current
                      else best) v vs;
                 bestProfitPerAcre_v =
                   reduce1 (\<lambda>best current.
                      if jgt (profitPerAcre (snd current)) (profitPerAcre (snd best))
                      then current else best) v vs
             in Some
                  \<lparr>totalScenarios = length validScenarios,
                   bestProfit = fst bestProfit_v,
                   bestProfitPerAcre = fst bestProfitPerAcre_v,
                   scenarios = map fst validScenarios,
                   comparison =
                     \<lparr>totalRevenue =
                        foldl (\<lambda>sum s. jadd sum (revenue (snd s))) (Fin 0) validScenarios,
                      cmp_totalCost =
                        foldl (\<lambda>sum s. jadd sum (totalCost (snd s))) (Fin 0) validScenarios,
                      totalProfit =
                        foldl (\<lambda>sum s. jadd sum (netProfit (snd s))) (Fin 0) validScenarios,
                      averageProfitPerAcre =
                        jdiv
                          (foldl (\<lambda>sum s. jadd sum (profitPerAcre (snd s))) (Fin 0)
                             validScenarios)
                          (Fin (real (length validScenarios)))\<rparr>\<rparr>))"

section \<open>Storage module\<close>

text \<open>
  What the store keeps is JSON. An object is a map from property names to values;
  the store looks only at the top-level properties \<open>id\<close>, \<open>savedAt\<close>, \<open>addedAt\<close> and
  \<open>updatedAt\<close>, so a nested object is kept as the list of its entries.
  \<open>JSON.parse (JSON.stringify x)\<close> is taken to be \<open>x\<close> on these values.
\<close>

datatype jv = VNull | VBool bool | VNum real | VStr string | VObj "(string \<times> jv) list"

type_synonym obj = "string \<Rightarrow> jv option"

text \<open>
  One key of \<open>localStorage\<close>: absent (\<open>getItem\<close> gives \<open>null\<close>), holding text that
  \<open>JSON.parse\<close> rejects, or holding the JSON text of a value of the expected shape.
\<close>

datatype 'a slot = Absent | Corrupt | Stored 'a

text \<open>
  The state: whether the medium accepts writes (the probe of \<open>isStorageAvailable\<close>), the
  four keys, and the environment the module reads: the identifiers \<open>generateId\<close> will
  return and the times the clock will show, each with the number of values used so far.
  A write that passes the probe is taken to succeed.
\<close>

record store =
  available :: bool
  scenarios_slot :: "obj list slot"
  history_slot :: "obj list slot"
  settings_slot :: "obj slot"
  last_calc_slot :: "jv slot"
  id_seq :: "nat \<Rightarrow> string"
  id_next :: nat
  time_seq :: "nat \<Rightarrow> string"
  time_next :: nat

definition DEFAULT_SETTINGS :: obj where
  "DEFAULT_SETTINGS =
     [''unitPreference'' \<mapsto> VStr ''imperial'',
      ''currency'' \<mapsto> VStr ''usd'',
      ''decimalPlaces'' \<mapsto> VNum 2,
      ''refreshInterval'' \<mapsto> VNum 15,
      ''cacheMode'' \<mapsto> VStr ''smart'',
      ''autoSave'' \<mapsto> VBool True,
      ''themeMode'' \<mapsto> VStr ''auto'']"

definition isStorageAvailable :: "store \<Rightarrow> bool" where
  "isStorageAvailable s = available s"

definition generateId :: "store \<Rightarrow> string \<times> store" where
  "generateId s = (id_seq s (id_next s), s\<lparr>id_next := id_next s + 1\<rparr>)"

text \<open>\<open>new Date().toISOString()\<close>\<close>

definition read_clock :: "store \<Rightarrow> string \<times> store" where
  "read_clock s = (time_seq s (time_next s), s\<lparr>time_next := time_next s + 1\<rparr>)"

text \<open>Truthiness of a property that may be absent, and \<open>===\<close> between two such
  properties. Two parsed objects are never the same object.\<close>

fun truthy :: "jv option \<Rightarrow> bool" where
  "truthy None = False"
| "truthy (Some VNull) = False"
| "truthy (Some (VBool b)) = b"
| "truthy (Some (VNum r)) = (r \<noteq> 0)"
| "truthy (Some (VStr s)) = (s \<noteq> [])"
| "truthy (Some (VObj kvs)) = True"

fun strict_eq :: "jv option \<Rightarrow> jv option \<Rightarrow> bool" where
  "strict_eq None None = True"
| "strict_eq (Some VNull) (Some VNull) = True"
| "strict_eq (Some (VBool a)) (Some (VBool b)) = (a = b)"
| "strict_eq (Some (VNum a)) (Some (VNum b)) = (a = b)"
| "strict_eq (Some (VStr a)) (Some (VStr b)) = (a = b)"
| "strict_eq x y = False"

fun findIndex :: "('a \<Rightarrow> bool) \<Rightarrow> 'a list \<Rightarrow> nat option" where
  "findIndex P [] = None"
| "findIndex P (x # xs) = (if P x then Some 0 else map_option Suc (findIndex P xs))"

text \<open>\<open>JSON.parse(localStorage.getItem(key)) || []\<close>; \<open>None\<close> when parsing raises.\<close>

definition parse_list :: "'a list slot \<Rightarrow> 'a list option" where
  "parse_list sl = (case sl of Absent \<Rightarrow> Some [] | Corrupt \<Rightarrow> None | Stored xs \<Rightarrow> Some xs)"

definition addToHistory :: "store \<Rightarrow> obj \<Rightarrow> bool \<times> store" where
  "addToHistory s calc =
     (if \<not> isStorageAvailable s then (False, s)
      else
        (case parse_list (history_slot s) of
           None \<Rightarrow> (False, s)
         | Some history \<Rightarrow>
             let maxHistoryItems = 100;
                 (new_id, s1) = generateId s;
                 (added, s2) = read_clock s1;
                 historyItem = ([''id'' \<mapsto> VStr new_id] ++ calc)(''addedAt'' \<mapsto> VStr added);
                 history1 = take maxHistoryItems (historyItem # history)
             in (True, s2\<lparr>history_slot := Stored history1\<rparr>)))"

text \<open>The three steps of \<open>saveScenario\<close> before it writes: an identifier when the
  scenario has none, a time when it has none, and the replacement of the stored scenario
  with the same \<open>id\<close>, or the addition at the end.\<close>

definition ensure_id :: "store \<Rightarrow> obj \<Rightarrow> obj \<times> store" where
  "ensure_id s scenario =
     (if \<not> truthy (scenario ''id'')
      then (let (new_id, s1) = generateId s in (scenario(''id'' \<mapsto> VStr new_id), s1))
      else (scenario, s))"

definition ensure_savedAt :: "store \<Rightarrow> obj \<Rightarrow> obj \<times> store" where
  "ensure_savedAt s scenario =
     (if \<not> truthy (scenario ''savedAt'')
      then (let (saved, s1) = read_clock s in (scenario(''savedAt'' \<mapsto> VStr saved), s1))
      else (scenario, s))"

definition upsert :: "obj list \<Rightarrow> obj \<Rightarrow> obj list" where
  "upsert scs scenario =
     (case findIndex (\<lambda>x. strict_eq (x ''id'') (scenario ''id'')) scs of
        Some existingIndex \<Rightarrow> scs[existingIndex := scenario]
      | None \<Rightarrow> scs @ [scenario])"

definition saveScenario :: "store \<Rightarrow> obj \<Rightarrow> bool \<times> store" where
  "saveScenario s scenario =
     (if \<not> isStorageAvailable s then (False, s)
      else
        (case parse_list (scenarios_slot s) of
           None \<Rightarrow> (False, s)
         | Some scs \<Rightarrow>
             let (scenario1, s1) = ensure_id s scenario;
                 (scenario2, s2) = ensure_savedAt s1 scenario1;
                 s3 = s2\<lparr>scenarios_slot := Stored (upsert scs scenario2)\<rparr>;
                 (added, s4) = addToHistory s3 scenario2
             in (True, s4)))"

definition getScenarios :: "store \<Rightarrow> obj list" where
  "getScenarios s =
     (if \<not> isStorageAvailable s then []
      else (case parse_list (scenarios_slot s) of None \<Rightarrow> [] | Some scs \<Rightarrow> scs))"

definition getScenario :: "store \<Rightarrow> jv option \<Rightarrow> obj option" where
  "getScenario s ident = find (\<lambda>x. strict_eq (x ''id'') ident) (getScenarios s)"

definition updateScenario :: "store \<Rightarrow> jv option \<Rightarrow> obj \<Rightarrow> bool \<times> store" where
  "updateScenario s ident updates =
     (let scs = getScenarios s
      in (case findIndex (\<lambda>x. strict_eq (x ''id'') ident) scs of
            None \<Rightarrow> (False, s)
          | Some i \<Rightarrow>
              let (updated, s1) = read_clock s;
                  scs1 = scs[i := ((scs ! i) ++ updates)(''updatedAt'' \<mapsto> VStr updated)]
              in (True, s1\<lparr>scenarios_slot := Stored scs1\<rparr>)))"

definition renameScenario :: "store \<Rightarrow> jv option \<Rightarrow> jv \<Rightarrow> bool \<times> store" where
  "renameScenario s ident newName = updateScenario s ident [''name'' \<mapsto> newName]"

definition deleteScenario :: "store \<Rightarrow> jv option \<Rightarrow> bool \<times> store" where
  "deleteScenario s ident =
     (if \<not> isStorageAvailable s then (False, s)
      else
        (True,
         s\<lparr>scenarios_slot :=
             Stored (filter (\<lambda>x. \<not> strict_eq (x ''id'') ident) (getScenarios s))\<rparr>))"

definition deleteAllScenarios :: "store \<Rightarrow> bool \<times> store" where
  "deleteAllScenarios s =
     (if \<not> isStorageAvailable s then (False, s) else (True, s\<lparr>scenarios_slot := Absent\<rparr>))"

text \<open>\<open>getHistory(limit)\<close>: a falsy limit (\<open>null\<close>, 0) keeps the whole list, and
  \<open>slice(0, limit)\<close> with a negative limit drops from the end.\<close>

definition slice0 :: "'a list \<Rightarrow> int \<Rightarrow> 'a list" where
  "slice0 xs l = (if 0 \<le> l then take (nat l) xs else take (nat (int (length xs) + l)) xs)"

definition getHistory :: "store \<Rightarrow> int option \<Rightarrow> obj list" where
  "getHistory s limit =
     (if \<not> isStorageAvailable s then []
      else
        (case parse_list (history_slot s) of
           None \<Rightarrow> []
         | Some history \<Rightarrow>
             (case limit of
                None \<Rightarrow> history
              | Some l \<Rightarrow> if l \<noteq> 0 then slice0 history l else history)))"

definition clearHistory :: "store \<Rightarrow> bool \<times> store" where
  "clearHistory s =
     (if \<not> isStorageAvailable s then (False, s) else (True, s\<lparr>history_slot := Absent\<rparr>))"

definition deleteHistoryItem :: "store \<Rightarrow> jv option \<Rightarrow> bool \<times> store" where
  "deleteHistoryItem s ident =
     (if \<not> isStorageAvailable s then (False, s)
      else
        (True,
         s\<lparr>history_slot :=
             Stored (filter (\<lambda>item. \<not> strict_eq (item ''id'') ident) (getHistory s None))\<rparr>))"

text \<open>\<open>JSON.parse\<close> of an absent key is \<open>null\<close>, and spreading \<open>null\<close> adds nothing.\<close>

definition getSettings :: "store \<Rightarrow> obj" where
  "getSettings s =
     (if \<not> isStorageAvailable s then DEFAULT_SETTINGS
      else
        (case settings_slot s of
           Corrupt \<Rightarrow> DEFAULT_SETTINGS
         | Absent \<Rightarrow> DEFAULT_SETTINGS ++ Map.empty
         | Stored stored \<Rightarrow> DEFAULT_SETTINGS ++ stored))"

definition saveSettings :: "store \<Rightarrow> obj \<Rightarrow> bool \<times> store" where
  "saveSettings s settings =
     (if \<not> isStorageAvailable s then (False, s)
      else
        (let mergedSettings = DEFAULT_SETTINGS ++ getSettings s ++ settings
         in (True, s\<lparr>settings_slot := Stored mergedSettings\<rparr>)))"

definition getSetting :: "store \<Rightarrow> string \<Rightarrow> jv option" where
  "getSetting s key = getSettings s key"

definition resetSettings :: "store \<Rightarrow> bool \<times> store" where
  "resetSettings s =
     (if \<not> isStorageAvailable s then (False, s) else (True, s\<lparr>settings_slot := Absent\<rparr>))"

definition saveLastCalculation :: "store \<Rightarrow> jv \<Rightarrow> bool \<times> store" where
  "saveLastCalculation s calc =
     (if \<not> isStorageAvailable s then (False, s)
      else (True, s\<lparr>last_calc_slot := Stored calc\<rparr>))"

definition getLastCalculation :: "store \<Rightarrow> jv" where
  "getLastCalculation s =
     (if \<not> isStorageAvailable s then VNull
      else (case last_calc_slot s of Stored v \<Rightarrow> v | _ \<Rightarrow> VNull))"

text \<open>The object \<open>exportData\<close> serialises. The three readers it calls catch their own
  errors, so it always returns the text of such an object.\<close>

record snapshot =
  version :: string
  exportedAt :: string
  snap_scenarios :: "obj list"
  snap_history :: "obj list"
  snap_settings :: obj

definition exportData :: "store \<Rightarrow> snapshot \<times> store" where
  "exportData s =
     (let (exported, s1) = read_clock s
      in (\<lparr>version = ''1.0'',
           exportedAt = exported,
           snap_scenarios = getScenarios s1,
           snap_history = getHistory s1 None,
           snap_settings = getSettings s1\<rparr>, s1))"

text \<open>
  The text \<open>importData\<close> is given: text that does not parse, or a parsed object whose four
  top-level properties may each be absent or \<open>null\<close> (\<open>None\<close>). \<open>json_of\<close> is the text
  \<open>exportData\<close> returns, parsed again.
\<close>

record import_fields =
  in_version :: "string option"
  in_scenarios :: "obj list option"
  in_history :: "obj list option"
  in_settings :: "obj option"

datatype import_text = Malformed | Json import_fields

definition json_of :: "snapshot \<Rightarrow> import_text" where
  "json_of x =
     Json \<lparr>in_version = Some (version x),
           in_scenarios = Some (snap_scenarios x),
           in_history = Some (snap_history x),
           in_settings = Some (snap_settings x)\<rparr>"

text \<open>The result of \<open>importData\<close>: success with the number of scenarios the message
  reports, or failure with the error whose message is reported.\<close>

datatype import_error = JsonSyntaxError | InvalidImportFormat

datatype import_result = Imported nat | ImportFailed import_error

definition importData :: "store \<Rightarrow> import_text \<Rightarrow> import_result \<times> store" where
  "importData s jsonString =
     (case jsonString of
        Malformed \<Rightarrow> (ImportFailed JsonSyntaxError, s)
      | Json data \<Rightarrow>
          (case (in_version data, in_scenarios data, in_history data, in_settings data) of
             (Some v, Some scs, Some h, Some st) \<Rightarrow>
               if v = [] then (ImportFailed InvalidImportFormat, s)
               else
                 let s1 = foldl (\<lambda>st0 scenario. snd (saveScenario st0 scenario)) s scs;
                     s2 = snd (saveSettings s1 st)
                 in (Imported (length scs), s2)
           | _ \<Rightarrow> (ImportFailed InvalidImportFormat, s)))"

definition clearAllData :: "store \<Rightarrow> bool \<times> store" where
  "clearAllData s =
     (if \<not> isStorageAvailable s then (False, s)
      else
        (True,
         s\<lparr>scenarios_slot := Absent, history_slot := Absent, settings_slot := Absent,
           last_calc_slot := Absent\<rparr>))"

text \<open>The operations that write, as commands, for statements about every operation.
  The reading operations (\<open>getScenarios\<close>, \<open>getScenario\<close>, \<open>getHistory\<close>,
  \<open>searchHistory\<close>, \<open>getSettings\<close>, \<open>getSetting\<close>, \<open>getLastCalculation\<close>,
  \<open>getStorageInfo\<close>) leave the four keys as they are.\<close>

datatype store_op =
    SaveScenario obj
  | UpdateScenario "jv option" obj
  | RenameScenario "jv option" jv
  | DeleteScenario "jv option"
  | DeleteAllScenarios
  | AddToHistory obj
  | ClearHistory
  | DeleteHistoryItem "jv option"
  | SaveSettings obj
  | ResetSettings
  | SaveLastCalculation jv
  | ExportData
  | ImportData import_text
  | ClearAllData

fun run_op :: "store \<Rightarrow> store_op \<Rightarrow> store" where
  "run_op s (SaveScenario x) = snd (saveScenario s x)"
| "run_op s (UpdateScenario i u) = snd (updateScenario s i u)"
| "run_op s (RenameScenario i n) = snd (renameScenario s i n)"
| "run_op s (DeleteScenario i) = snd (deleteScenario s i)"
| "run_op s DeleteAllScenarios = snd (deleteAllScenarios s)"
| "run_op s (AddToHistory x) = snd (addToHistory s x)"
| "run_op s ClearHistory = snd (clearHistory s)"
| "run_op s (DeleteHistoryItem i) = snd (deleteHistoryItem s i)"
| "run_op s (SaveSettings x) = snd (saveSettings s x)"
| "run_op s ResetSettings = snd (resetSettings s)"
| "run_op s (SaveLastCalculation v) = snd (saveLastCalculation s v)"
| "run_op s ExportData = snd (exportData s)"
| "run_op s (ImportData t) = snd (importData s t)"
| "run_op s ClearAllData = snd (clearAllData s)"

definition run_ops :: "store \<Rightarrow> store_op list \<Rightarrow> store" where
  "run_ops s ops = foldl run_op s ops"

subsection \<open>The object \<open>DEFAULT_SETTINGS\<close> and its callers\<close>

text \<open>
  \<open>DEFAULT_SETTINGS\<close> is one object, made when the module is loaded and never frozen.
  \<open>getSettings\<close> returns the object itself, not a copy, when the medium is unavailable
  and when the stored text does not parse; only the path that merges the stored settings
  builds a new object. The functions above read the defaults as the values the object
  is made with. The functions below read the object as it is at the time of the call:
  the state is the store together with the present properties of the object, and what
  \<open>getSettings\<close> returns is a reference, the object of the defaults or a new object with
  its properties.
\<close>

record runtime =
  medium :: store
  defaults_now :: obj

datatype settings_ref = TheDefaults | Copy obj

text \<open>The runtime when the module has been loaded on a store.\<close>

definition loaded :: "store \<Rightarrow> runtime" where
  "loaded s = \<lparr>medium = s, defaults_now = DEFAULT_SETTINGS\<rparr>"

text \<open>The properties of the object a reference points to.\<close>

definition deref :: "runtime \<Rightarrow> settings_ref \<Rightarrow> obj" where
  "deref w r = (case r of TheDefaults \<Rightarrow> defaults_now w | Copy m \<Rightarrow> m)"

definition getSettings_ref :: "runtime \<Rightarrow> settings_ref" where
  "getSettings_ref w =
     (if \<not> isStorageAvailable (medium w) then TheDefaults
      else
        (case settings_slot (medium w) of
           Corrupt \<Rightarrow> TheDefaults
         | Absent \<Rightarrow> Copy (defaults_now w ++ Map.empty)
         | Stored stored \<Rightarrow> Copy (defaults_now w ++ stored)))"

definition saveSettings_ref :: "runtime \<Rightarrow> obj \<Rightarrow> bool \<times> runtime" where
  "saveSettings_ref w settings =
     (if \<not> isStorageAvailable (medium w) then (False, w)
      else
        (let mergedSettings = defaults_now w ++ deref w (getSettings_ref w) ++ settings
         in (True, w\<lparr>medium := (medium w)\<lparr>settings_slot := Stored mergedSettings\<rparr>\<rparr>)))"

definition resetSettings_ref :: "runtime \<Rightarrow> bool \<times> runtime" where
  "resetSettings_ref w =
     (fst (resetSettings (medium w)), w\<lparr>medium := snd (resetSettings (medium w))\<rparr>)"

text \<open>
  The page keeps what \<open>getSettings\<close> returned in \<open>state.settings\<close>, and its
  \<open>updateSetting\<close> writes into that object before it calls \<open>saveSettings\<close>:
  \<open>state.settings[key] = value\<close> is \<open>assign\<close>. A write through the reference to the
  defaults changes the defaults; a write into a copy changes the copy alone.
\<close>

definition assign :: "runtime \<Rightarrow> settings_ref \<Rightarrow> string \<Rightarrow> jv \<Rightarrow> settings_ref \<times> runtime" where
  "assign w r key v =
     (case r of
        TheDefaults \<Rightarrow> (TheDefaults, w\<lparr>defaults_now := (defaults_now w)(key \<mapsto> v)\<rparr>)
      | Copy m \<Rightarrow> (Copy (m(key \<mapsto> v)), w))"

definition updateSetting ::
  "runtime \<Rightarrow> settings_ref \<Rightarrow> string \<Rightarrow> jv \<Rightarrow> settings_ref \<times> runtime" where
  "updateSetting w settings key v =
     (let (settings1, w1) = assign w settings key v;
          (saved, w2) = saveSettings_ref w1 [key \<mapsto> v]
      in (settings1, w2))"

section \<open>Inputs and notions used in the statements\<close>

definition is_fin :: "jsnum \<Rightarrow> bool" where
  "is_fin x = (case x of Fin a \<Rightarrow> True | _ \<Rightarrow> False)"

text \<open>The example of the specification, and a form as the page submits it: every field
  a string, optional costs left empty or absent.\<close>

definition corn_input :: calc_input where
  "corn_input =
     \<lparr>cropType = Str (utf16 ''corn''), acreage = Num (Fin 100), yieldPerAcre = Num (Fin 180),
      marketPrice = Num (Fin 4.5), seedCost = Num (Fin 60), fertilizerCost = Num (Fin 80),
      chemicalCost = Num (Fin 40), laborCost = Num (Fin 50), equipmentCost = Num (Fin 30),
      miscCost = Num (Fin 10)\<rparr>"

definition form_input :: calc_input where
  "form_input =
     \<lparr>cropType = Str (utf16 ''wheat''), acreage = Str (utf16 ''50''), yieldPerAcre = Str (utf16 ''60.5''),
      marketPrice = Str (utf16 ''6''), seedCost = Str (utf16 ''20''), fertilizerCost = Str [],
      chemicalCost = Undefined, laborCost = Null, equipmentCost = Str (utf16 ''0''),
      miscCost = Str (utf16 ''1.5'')\<rparr>"

definition bad_input :: calc_input where
  "bad_input =
     \<lparr>cropType = Str [], acreage = Str (utf16 ''0''), yieldPerAcre = Str (utf16 ''-3''),
      marketPrice = Str [], seedCost = Str (utf16 ''abc''), fertilizerCost = Str [],
      chemicalCost = Undefined, laborCost = Num (Fin (- 1)), equipmentCost = Str (utf16 ''0''),
      miscCost = Str (utf16 ''1.5'')\<rparr>"

definition spaces_input :: calc_input where
  "spaces_input =
     \<lparr>cropType = Str (utf16 ''   ''), acreage = Str (utf16 ''50''), yieldPerAcre = Str (utf16 ''60.5''),
      marketPrice = Str (utf16 ''6''), seedCost = Str (utf16 ''20''), fertilizerCost = Str [],
      chemicalCost = Undefined, laborCost = Null, equipmentCost = Str (utf16 ''0''),
      miscCost = Str (utf16 ''1.5'')\<rparr>"

text \<open>
  An input at the edges of what the validation reads: a crop type of a no-break space,
  an em space and a byte order mark; an acreage below half the least positive number,
  which reads as 0; a yield that reads as a negative zero; a price that reads as
  \<open>Infinity\<close>; and a cost behind white space and before letters.
\<close>

definition edge_input :: calc_input where
  "edge_input =
     \<lparr>cropType = Str [0x00A0, 0x2003, 0xFEFF], acreage = Str (utf16 ''1e-324''),
      yieldPerAcre = Str (utf16 ''-1e-400''), marketPrice = Str (utf16 ''1e400''),
      seedCost = Str ([0x0009, 0x3000] @ utf16 ''7.5kg''), fertilizerCost = Str [],
      chemicalCost = Undefined, laborCost = Null, equipmentCost = Str (utf16 ''.5e1''),
      miscCost = Str (utf16 ''-.5'')\<rparr>"

text \<open>
  The validation rules as the specification words them. A rule belongs to a field; the
  fields are in the order of their declaration. The rule of the crop type is a parameter:
  \<open>crop_empty\<close> reads ``empty'' as absent, \<open>null\<close> or the empty string, and
  \<open>crop_empty_or_spaces\<close> also counts a string of white space, the white space of
  Unicode included.
\<close>

definition declared_fields :: "string list" where
  "declared_fields = [''cropType'', ''acreage'', ''yieldPerAcre'', ''marketPrice''] @ costFields"

definition unparseable :: "jsval \<Rightarrow> bool" where
  "unparseable v = isNaN (parseFloat v)"

definition is_text :: "jsval \<Rightarrow> bool" where
  "is_text v = (case v of Num n \<Rightarrow> False | _ \<Rightarrow> True)"

definition crop_empty :: "jsval \<Rightarrow> bool" where
  "crop_empty v = (v = Undefined \<or> v = Null \<or> v = Str [])"

definition crop_empty_or_spaces :: "jsval \<Rightarrow> bool" where
  "crop_empty_or_spaces v =
     (case v of Undefined \<Rightarrow> True | Null \<Rightarrow> True | Str s \<Rightarrow> list_all is_ws s | Num n \<Rightarrow> False)"

definition cost_bad :: "calc_input \<Rightarrow> string \<Rightarrow> bool" where
  "cost_bad inputs f =
     (\<not> is_blank (input_field inputs f)
      \<and> (unparseable (input_field inputs f) \<or> jlt (parseFloat (input_field inputs f)) (Fin 0)))"

definition violates :: "(jsval \<Rightarrow> bool) \<Rightarrow> calc_input \<Rightarrow> string \<Rightarrow> bool" where
  "violates crop_rule inputs f =
     (let v = input_field inputs f
      in if f = ''cropType'' then crop_rule v
         else if f = ''acreage'' then is_blank v \<or> unparseable v \<or> jle (parseFloat v) (Fin 0)
         else if f = ''yieldPerAcre'' \<or> f = ''marketPrice''
           then is_blank v \<or> unparseable v \<or> jlt (parseFloat v) (Fin 0)
         else \<not> is_blank v \<and> (unparseable v \<or> jlt (parseFloat v) (Fin 0)))"

definition rule_message :: "calc_input \<Rightarrow> string \<Rightarrow> string" where
  "rule_message inputs f =
     (if f = ''cropType'' then ''Crop type is required''
      else if f = ''acreage'' then
        (if is_blank (acreage inputs) then ''Acres planted is required''
         else ''Acres planted must be greater than 0'')
      else if f = ''yieldPerAcre'' then
        (if is_blank (yieldPerAcre inputs) then ''Expected yield is required''
         else ''Expected yield cannot be negative'')
      else if f = ''marketPrice'' then
        (if is_blank (marketPrice inputs) then ''Market price is required''
         else ''Market price cannot be negative'')
      else f @ '' cannot be negative'')"

definition expected_errors :: "(jsval \<Rightarrow> bool) \<Rightarrow> calc_input \<Rightarrow> string list" where
  "expected_errors crop_rule inputs =
     map (rule_message inputs) (filter (violates crop_rule inputs) declared_fields)"

text \<open>The corn example with an infinite market price: \<open>parseFloat\<close> reads the string
  \<open>Infinity\<close> as a number, and the validation accepts it.\<close>

definition inf_price_input :: calc_input where
  "inf_price_input = corn_input\<lparr>marketPrice := Str (utf16 ''Infinity'')\<rparr>"

text \<open>
  Notions for \<open>compareScenarios\<close>: a scenario whose calculation succeeded, a figure of its
  data (\<open>NaN\<close> when there is none), the first element of a list that has the greatest
  figure, and the sum of numbers as the language adds them from the left.
\<close>

definition succeeded :: "'a scenario \<Rightarrow> bool" where
  "succeeded s = (case calculation s of Some (Success d) \<Rightarrow> True | _ \<Rightarrow> False)"

definition metric :: "(calc_data \<Rightarrow> jsnum) \<Rightarrow> 'a scenario \<Rightarrow> jsnum" where
  "metric g s = (case calculation s of Some (Success d) \<Rightarrow> g d | _ \<Rightarrow> NaN)"

definition first_max :: "('b \<Rightarrow> jsnum) \<Rightarrow> 'b list \<Rightarrow> 'b \<Rightarrow> bool" where
  "first_max f xs b = (list_all (\<lambda>y. jle (f y) (f b)) xs \<and> find (\<lambda>y. f y = f b) xs = Some b)"

definition js_sum :: "jsnum list \<Rightarrow> jsnum" where
  "js_sum xs = foldl jadd (Fin 0) xs"

text \<open>Four scenarios: the corn example, a failed calculation, a scenario without a
  calculation, and the corn example again under another name.\<close>

definition demo_scenarios :: "string scenario list" where
  "demo_scenarios =
     [\<lparr>info = ''corn A'', calculation = Some (Success (profitability_data ''t'' corn_input))\<rparr>,
      \<lparr>info = ''failed'', calculation = Some (Failure [''Crop type is required''])\<rparr>,
      \<lparr>info = ''empty'', calculation = None\<rparr>,
      \<lparr>info = ''corn B'', calculation = Some (Success (profitability_data ''t'' corn_input))\<rparr>]"

text \<open>
  An input that the validation accepts and whose net profit is not a number: the corn
  example with a yield of 0 and the market price \<open>Infinity\<close>, so that the revenue is
  \<open>0 * Infinity\<close>. It comes first in a list of two scenarios, before the corn example.
\<close>

definition nan_input :: calc_input where
  "nan_input = corn_input\<lparr>yieldPerAcre := Num (Fin 0), marketPrice := Str (utf16 ''Infinity'')\<rparr>"

definition nan_scenarios :: "string scenario list" where
  "nan_scenarios =
     [\<lparr>info = ''fallow'', calculation = Some (Success (profitability_data ''t'' nan_input))\<rparr>,
      \<lparr>info = ''corn'', calculation = Some (Success (profitability_data ''t'' corn_input))\<rparr>]"

text \<open>
  Notions for the store. The settings a store has persisted (nothing when the key is
  absent or does not parse); the bound on the history key; the entry \<open>addToHistory\<close>
  builds from an identifier, a time and the item it copies, and the entries of a run of
  calls in the order of the calls; the \<open>id\<close> properties of a list of objects; and a list
  of scenarios in which no scenario has the \<open>id\<close> of an earlier one.
\<close>

definition persisted_settings :: "store \<Rightarrow> obj" where
  "persisted_settings s = (case settings_slot s of Stored m \<Rightarrow> m | _ \<Rightarrow> Map.empty)"

definition hist_bounded :: "store \<Rightarrow> bool" where
  "hist_bounded s = (case history_slot s of Stored h \<Rightarrow> length h \<le> 100 | _ \<Rightarrow> True)"

definition history_entry :: "string \<Rightarrow> string \<Rightarrow> obj \<Rightarrow> obj" where
  "history_entry i t item = ([''id'' \<mapsto> VStr i] ++ item)(''addedAt'' \<mapsto> VStr t)"

fun entries :: "(nat \<Rightarrow> string) \<Rightarrow> nat \<Rightarrow> (nat \<Rightarrow> string) \<Rightarrow> nat \<Rightarrow> obj list \<Rightarrow> obj list" where
  "entries ids i ts t [] = []"
| "entries ids i ts t (x # xs) = history_entry (ids i) (ts t) x # entries ids (Suc i) ts (Suc t) xs"

definition entries_of :: "store \<Rightarrow> obj list \<Rightarrow> obj list" where
  "entries_of s items = entries (id_seq s) (id_next s) (time_seq s) (time_next s) items"

definition add_all :: "store \<Rightarrow> obj list \<Rightarrow> store" where
  "add_all s items = foldl (\<lambda>st item. snd (addToHistory st item)) s items"

definition ids_of :: "obj list \<Rightarrow> jv option list" where
  "ids_of xs = map (\<lambda>x. x ''id'') xs"

fun no_id_clash :: "obj list \<Rightarrow> bool" where
  "no_id_clash [] = True"
| "no_id_clash (x # xs) =
     (list_all (\<lambda>y. \<not> strict_eq (x ''id'') (y ''id'')) xs \<and> no_id_clash xs)"

definition well_formed_scenario :: "obj \<Rightarrow> bool" where
  "well_formed_scenario x = (truthy (x ''id'') \<and> truthy (x ''savedAt''))"

text \<open>An empty store on a medium that works, with a generator that counts in unary and a
  clock that does the same; a second one that differs in its clock only; and two
  scenarios.\<close>

definition fresh_store :: store where
  "fresh_store =
     \<lparr>available = True, scenarios_slot = Absent, history_slot = Absent,
      settings_slot = Absent, last_calc_slot = Absent,
      id_seq = (\<lambda>n. ''id-'' @ replicate n (CHR ''i'')), id_next = 0,
      time_seq = (\<lambda>n. ''2024-05-01T12:00:0'' @ replicate n (CHR ''0'')), time_next = 0\<rparr>"

definition scenario_a :: obj where
  "scenario_a =
     [''id'' \<mapsto> VStr ''s1'', ''name'' \<mapsto> VStr ''corn 2024'', ''description'' \<mapsto> VStr [],
      ''calculation'' \<mapsto> VObj [(''success'', VBool True)],
      ''savedAt'' \<mapsto> VStr ''2024-04-30T08:00:00.000Z'']"

definition scenario_b :: obj where
  "scenario_b =
     [''id'' \<mapsto> VStr ''s2'', ''name'' \<mapsto> VStr ''wheat 2024'', ''description'' \<mapsto> VStr [],
      ''calculation'' \<mapsto> VObj [(''success'', VBool True)],
      ''savedAt'' \<mapsto> VStr ''2024-04-30T09:00:00.000Z'']"

definition raw_calculation :: obj where
  "raw_calculation = [''success'' \<mapsto> VBool True, ''data'' \<mapsto> VObj [(''cropType'', VStr ''corn'')]]"

text \<open>The loop of \<open>importData\<close> over the scenarios of a snapshot; a store in which a
  scenario was saved and the history then cleared; and a store with two scenarios and a
  changed setting.\<close>

definition save_all :: "store \<Rightarrow> obj list \<Rightarrow> store" where
  "save_all e scs = foldl (\<lambda>st0 scenario. snd (saveScenario st0 scenario)) e scs"

definition cleared_store :: store where
  "cleared_store = run_ops fresh_store [SaveScenario scenario_a, ClearHistory]"

definition two_scenario_store :: store where
  "two_scenario_store =
     run_ops fresh_store
       [SaveScenario scenario_a, SaveScenario scenario_b,
        SaveSettings [''currency'' \<mapsto> VStr ''eur'']]"

text \<open>
  The page on a medium that refuses writes, and on a medium that works but holds a
  settings text that does not parse: in each, the module is loaded, the page reads the
  settings and the user switches to the dark theme, on which \<open>toggleTheme\<close> calls
  \<open>updateSetting('themeMode', 'dark')\<close>.
\<close>

definition offline_store :: store where
  "offline_store = fresh_store\<lparr>available := False\<rparr>"

definition corrupt_store :: store where
  "corrupt_store = fresh_store\<lparr>settings_slot := Corrupt\<rparr>"

definition after_update :: "store \<Rightarrow> runtime" where
  "after_update s =
     snd (updateSetting (loaded s) (getSettings_ref (loaded s)) ''themeMode'' (VStr ''dark''))"

text \<open>The second of them after the settings were reset, and after 4 decimal places were
  saved then.\<close>

definition after_reset :: runtime where
  "after_reset = snd (resetSettings_ref (after_update corrupt_store))"

definition after_save :: runtime where
  "after_save = snd (saveSettings_ref after_reset [''decimalPlaces'' \<mapsto> VNum 4])"

section \<open>Evaluation and validation lemmas\<close>

lemmas parse_defs = parse_str_def parse_unsigned_def is_ws_def is_digit_def digit_val_def
  digits_val_def exponent_part_def signed_integer_def scale10_def number_of_def utf16_def
  Let_def

lemmas validate_defs = validateInputs_def costFields_def check_cost_def input_field_def
  is_blank_def isNaN_def jle_def trim_def

lemmas calc_defs = profitability_data_def calculateProduction_def calculateRevenue_def
  calculateTotalCost_def add_cost_def cost_entries_def calculateNetProfit_def
  calculateProfitPerAcre_def calculateProfitMargin_def calculateCostPerUnit_def or0_def
  jge_def jle_def jsub_def

lemma is_fin_iff: "is_fin x \<longleftrightarrow> (\<exists>a. x = Fin a)"
  by (cases x) (simp_all add: is_fin_def)

lemma validate_corn: "validateInputs corn_input = Inr \<lparr>isValid = True, errors = []\<rparr>"
  by (simp add: corn_input_def validate_defs parse_defs)

lemma validate_form: "validateInputs form_input = Inr \<lparr>isValid = True, errors = []\<rparr>"
  by (simp add: form_input_def validate_defs parse_defs)

lemma validate_bad:
  "validateInputs bad_input =
     Inr \<lparr>isValid = False,
          errors =
            [''Crop type is required'', ''Acres planted must be greater than 0'',
             ''Expected yield cannot be negative'', ''Market price is required'',
             ''seedCost cannot be negative'', ''laborCost cannot be negative'']\<rparr>"
  by (simp add: bad_input_def validate_defs parse_defs)

lemma trim_empty_iff: "trim s = [] \<longleftrightarrow> list_all is_ws s"
proof -
  have "trim s = [] \<longleftrightarrow> (\<forall>x\<in>set (dropWhile is_ws s). is_ws x)"
    by (simp add: trim_def dropWhile_eq_Nil_conv)
  also have "\<dots> \<longleftrightarrow> dropWhile is_ws s = []"
  proof
    assume all: "\<forall>x\<in>set (dropWhile is_ws s). is_ws x"
    show "dropWhile is_ws s = []"
    proof (rule ccontr)
      assume ne: "dropWhile is_ws s \<noteq> []"
      then have "\<not> is_ws (hd (dropWhile is_ws s))" by (rule hd_dropWhile)
      moreover have "hd (dropWhile is_ws s) \<in> set (dropWhile is_ws s)" using ne by simp
      ultimately show False using all by blast
    qed
  qed (auto dest: set_dropWhileD)
  also have "\<dots> \<longleftrightarrow> list_all is_ws s"
    by (simp add: dropWhile_eq_Nil_conv list_all_iff)
  finally show ?thesis .
qed

lemma crop_type_missing_text:
  "is_text v \<Longrightarrow> crop_type_missing v = Inr (crop_empty_or_spaces v)"
  by (cases v) (auto simp add: is_text_def crop_empty_or_spaces_def trim_empty_iff)

lemma foldl_check_cost:
  "foldl (check_cost inputs) errs fs =
     errs @ map (\<lambda>f. f @ '' cannot be negative'')
       (filter (\<lambda>f. \<not> is_blank (input_field inputs f)
           \<and> (unparseable (input_field inputs f) \<or> jlt (parseFloat (input_field inputs f)) (Fin 0))) fs)"
  by (induction fs arbitrary: errs) (simp_all add: check_cost_def unparseable_def)

lemma push_if: "(if A then xs @ [a] else if B then xs @ [b] else xs)
   = xs @ (if A then [a] else if B then [b] else [])"
  by simp


lemma cost_field_rules:
  assumes "f \<in> set costFields"
  shows "violates crop_rule inputs f = cost_bad inputs f"
    and "rule_message inputs f = f @ '' cannot be negative''"
  using assms by (auto simp add: costFields_def violates_def rule_message_def cost_bad_def Let_def)

lemma cost_part:
  "map (rule_message inputs) (filter (violates crop_rule inputs) costFields)
   = map (\<lambda>f. f @ '' cannot be negative'') (filter (cost_bad inputs) costFields)"
proof -
  have "filter (violates crop_rule inputs) costFields = filter (cost_bad inputs) costFields"
    by (rule filter_cong) (simp_all add: cost_field_rules)
  moreover have "map (rule_message inputs) (filter (cost_bad inputs) costFields)
      = map (\<lambda>f. f @ '' cannot be negative'') (filter (cost_bad inputs) costFields)"
    by (rule map_cong) (simp_all add: cost_field_rules)
  ultimately show ?thesis by simp
qed

lemma filter_Cons_app: "filter P (x # xs) = (if P x then [x] else []) @ filter P xs"
  by simp

lemma map_if_single: "map f (if c then [x] else []) = (if c then [f x] else [])"
  by simp

lemma head_rules:
  "violates crop_rule inputs ''cropType'' = crop_rule (cropType inputs)"
  "violates crop_rule inputs ''acreage'' =
     (is_blank (acreage inputs) \<or> unparseable (acreage inputs) \<or> jle (parseFloat (acreage inputs)) (Fin 0))"
  "violates crop_rule inputs ''yieldPerAcre'' =
     (is_blank (yieldPerAcre inputs) \<or> unparseable (yieldPerAcre inputs)
        \<or> jlt (parseFloat (yieldPerAcre inputs)) (Fin 0))"
  "violates crop_rule inputs ''marketPrice'' =
     (is_blank (marketPrice inputs) \<or> unparseable (marketPrice inputs)
        \<or> jlt (parseFloat (marketPrice inputs)) (Fin 0))"
  by (simp_all add: violates_def input_field_def Let_def)

lemma head_messages:
  "rule_message inputs ''cropType'' = ''Crop type is required''"
  "rule_message inputs ''acreage'' =
        (if is_blank (acreage inputs) then ''Acres planted is required''
         else ''Acres planted must be greater than 0'')"
  "rule_message inputs ''yieldPerAcre'' =
        (if is_blank (yieldPerAcre inputs) then ''Expected yield is required''
         else ''Expected yield cannot be negative'')"
  "rule_message inputs ''marketPrice'' =
        (if is_blank (marketPrice inputs) then ''Market price is required''
         else ''Market price cannot be negative'')"
  by (simp_all add: rule_message_def)

lemma expected_errors_split:
  "expected_errors crop_rule inputs =
     (if crop_rule (cropType inputs) then [''Crop type is required''] else [])
     @ (if is_blank (acreage inputs) then [''Acres planted is required'']
        else if unparseable (acreage inputs) \<or> jle (parseFloat (acreage inputs)) (Fin 0)
        then [''Acres planted must be greater than 0''] else [])
     @ (if is_blank (yieldPerAcre inputs) then [''Expected yield is required'']
        else if unparseable (yieldPerAcre inputs) \<or> jlt (parseFloat (yieldPerAcre inputs)) (Fin 0)
        then [''Expected yield cannot be negative''] else [])
     @ (if is_blank (marketPrice inputs) then [''Market price is required'']
        else if unparseable (marketPrice inputs) \<or> jlt (parseFloat (marketPrice inputs)) (Fin 0)
        then [''Market price cannot be negative''] else [])
     @ map (\<lambda>f. f @ '' cannot be negative'') (filter (cost_bad inputs) costFields)"
proof -
  have "expected_errors crop_rule inputs =
      (if violates crop_rule inputs ''cropType'' then [rule_message inputs ''cropType''] else [])
    @ (if violates crop_rule inputs ''acreage'' then [rule_message inputs ''acreage''] else [])
    @ (if violates crop_rule inputs ''yieldPerAcre'' then [rule_message inputs ''yieldPerAcre''] else [])
    @ (if violates crop_rule inputs ''marketPrice'' then [rule_message inputs ''marketPrice''] else [])
    @ map (rule_message inputs) (filter (violates crop_rule inputs) costFields)"
    unfolding expected_errors_def declared_fields_def
    by (simp only: append_Cons append_Nil filter_Cons_app map_append map_if_single)
  also have "\<dots> = 
     (if crop_rule (cropType inputs) then [''Crop type is required''] else [])
     @ (if is_blank (acreage inputs) then [''Acres planted is required'']
        else if unparseable (acreage inputs) \<or> jle (parseFloat (acreage inputs)) (Fin 0)
        then [''Acres planted must be greater than 0''] else [])
     @ (if is_blank (yieldPerAcre inputs) then [''Expected yield is required'']
        else if unparseable (yieldPerAcre inputs) \<or> jlt (parseFloat (yieldPerAcre inputs)) (Fin 0)
        then [''Expected yield cannot be negative''] else [])
     @ (if is_blank (marketPrice inputs) then [''Market price is required'']
        else if unparseable (marketPrice inputs) \<or> jlt (parseFloat (marketPrice inputs)) (Fin 0)
        then [''Market price cannot be negative''] else [])
     @ map (\<lambda>f. f @ '' cannot be negative'') (filter (cost_bad inputs) costFields)"
    unfolding head_rules head_messages cost_part by simp
  finally show ?thesis .
qed

lemma validate_split:
  assumes "crop_type_missing (cropType inputs) = Inr b"
   and that: "es = (if b then [''Crop type is required''] else [])
     @ (if is_blank (acreage inputs) then [''Acres planted is required'']
        else if unparseable (acreage inputs) \<or> jle (parseFloat (acreage inputs)) (Fin 0)
        then [''Acres planted must be greater than 0''] else [])
     @ (if is_blank (yieldPerAcre inputs) then [''Expected yield is required'']
        else if unparseable (yieldPerAcre inputs) \<or> jlt (parseFloat (yieldPerAcre inputs)) (Fin 0)
        then [''Expected yield cannot be negative''] else [])
     @ (if is_blank (marketPrice inputs) then [''Market price is required'']
        else if unparseable (marketPrice inputs) \<or> jlt (parseFloat (marketPrice inputs)) (Fin 0)
        then [''Market price cannot be negative''] else [])
     @ map (\<lambda>f. f @ '' cannot be negative'') (filter (cost_bad inputs) costFields)"
  shows "validateInputs inputs = Inr \<lparr>isValid = (es = []), errors = es\<rparr>"
  unfolding that validateInputs_def foldl_check_cost push_if Let_def assms(1) unparseable_def cost_bad_def
  by (simp only: sum.case append_assoc length_0_conv validation.simps)

lemma validateInputs_text:
  assumes "is_text (cropType inputs)"
  shows "validateInputs inputs =
     Inr \<lparr>isValid = (expected_errors crop_empty_or_spaces inputs = []),
          errors = expected_errors crop_empty_or_spaces inputs\<rparr>"
  by (rule validate_split [OF crop_type_missing_text [OF assms]]) (rule expected_errors_split)

lemma validate_Inr_crop:
  assumes "validateInputs inputs = Inr v"
  shows "\<exists>b. crop_type_missing (cropType inputs) = Inr b"
  using assms by (cases "crop_type_missing (cropType inputs)") (simp_all add: validateInputs_def)

lemma valid_conditions:
  assumes "validateInputs inputs = Inr v" and "isValid v"
  shows "crop_type_missing (cropType inputs) = Inr False"
    and "\<not> is_blank (acreage inputs)"
    and "parseFloat (acreage inputs) \<noteq> NaN"
    and "\<not> jle (parseFloat (acreage inputs)) (Fin 0)"
    and "\<not> is_blank (yieldPerAcre inputs)"
    and "parseFloat (yieldPerAcre inputs) \<noteq> NaN"
    and "\<not> jlt (parseFloat (yieldPerAcre inputs)) (Fin 0)"
    and "\<not> is_blank (marketPrice inputs)"
    and "parseFloat (marketPrice inputs) \<noteq> NaN"
    and "\<not> jlt (parseFloat (marketPrice inputs)) (Fin 0)"
    and "filter (cost_bad inputs) costFields = []"
proof -
  obtain b where b: "crop_type_missing (cropType inputs) = Inr b"
    using validate_Inr_crop [OF assms(1)] by blast
  define es where "es = (if b then [''Crop type is required''] else [])
     @ (if is_blank (acreage inputs) then [''Acres planted is required'']
        else if unparseable (acreage inputs) \<or> jle (parseFloat (acreage inputs)) (Fin 0)
        then [''Acres planted must be greater than 0''] else [])
     @ (if is_blank (yieldPerAcre inputs) then [''Expected yield is required'']
        else if unparseable (yieldPerAcre inputs) \<or> jlt (parseFloat (yieldPerAcre inputs)) (Fin 0)
        then [''Expected yield cannot be negative''] else [])
     @ (if is_blank (marketPrice inputs) then [''Market price is required'']
        else if unparseable (marketPrice inputs) \<or> jlt (parseFloat (marketPrice inputs)) (Fin 0)
        then [''Market price cannot be negative''] else [])
     @ map (\<lambda>f. f @ '' cannot be negative'') (filter (cost_bad inputs) costFields)"
  have "validateInputs inputs = Inr \<lparr>isValid = (es = []), errors = es\<rparr>"
    by (rule validate_split [OF b es_def])
  with assms have "es = []" by auto
  then have parts: "(if b then [''Crop type is required''] else []) = []"
    "(if is_blank (acreage inputs) then [''Acres planted is required'']
        else if unparseable (acreage inputs) \<or> jle (parseFloat (acreage inputs)) (Fin 0)
        then [''Acres planted must be greater than 0''] else []) = []"
    "(if is_blank (yieldPerAcre inputs) then [''Expected yield is required'']
        else if unparseable (yieldPerAcre inputs) \<or> jlt (parseFloat (yieldPerAcre inputs)) (Fin 0)
        then [''Expected yield cannot be negative''] else []) = []"
    "(if is_blank (marketPrice inputs) then [''Market price is required'']
        else if unparseable (marketPrice inputs) \<or> jlt (parseFloat (marketPrice inputs)) (Fin 0)
        then [''Market price cannot be negative''] else []) = []"
    "filter (cost_bad inputs) costFields = []"
    unfolding es_def by (simp_all only: append_is_Nil_conv map_is_Nil_conv)
  from parts(1) b show "crop_type_missing (cropType inputs) = Inr False"
    by (simp split: if_splits)
  from parts(2) show "\<not> is_blank (acreage inputs)" "parseFloat (acreage inputs) \<noteq> NaN"
    "\<not> jle (parseFloat (acreage inputs)) (Fin 0)"
    by (simp_all add: unparseable_def isNaN_def split: if_splits)
  from parts(3) show "\<not> is_blank (yieldPerAcre inputs)" "parseFloat (yieldPerAcre inputs) \<noteq> NaN"
    "\<not> jlt (parseFloat (yieldPerAcre inputs)) (Fin 0)"
    by (simp_all add: unparseable_def isNaN_def split: if_splits)
  from parts(4) show "\<not> is_blank (marketPrice inputs)" "parseFloat (marketPrice inputs) \<noteq> NaN"
    "\<not> jlt (parseFloat (marketPrice inputs)) (Fin 0)"
    by (simp_all add: unparseable_def isNaN_def split: if_splits)
  from parts(5) show "filter (cost_bad inputs) costFields = []" .
qed

lemma valid_intro:
  assumes "crop_type_missing (cropType inputs) = Inr False"
    and "\<not> is_blank (acreage inputs)"
    and "parseFloat (acreage inputs) \<noteq> NaN"
    and "\<not> jle (parseFloat (acreage inputs)) (Fin 0)"
    and "\<not> is_blank (yieldPerAcre inputs)"
    and "parseFloat (yieldPerAcre inputs) \<noteq> NaN"
    and "\<not> jlt (parseFloat (yieldPerAcre inputs)) (Fin 0)"
    and "\<not> is_blank (marketPrice inputs)"
    and "parseFloat (marketPrice inputs) \<noteq> NaN"
    and "\<not> jlt (parseFloat (marketPrice inputs)) (Fin 0)"
    and "filter (cost_bad inputs) costFields = []"
  shows "validateInputs inputs = Inr \<lparr>isValid = True, errors = []\<rparr>"
proof -
  have "validateInputs inputs = Inr \<lparr>isValid = (([]::string list) = []), errors = []\<rparr>"
    by (rule validate_split [OF assms(1)]) (simp add: assms unparseable_def isNaN_def)
  then show ?thesis by simp
qed

lemma blank_parse: "is_blank v \<Longrightarrow> parseFloat v = NaN"
  by (auto simp add: is_blank_def parse_str_def)

lemma or0_ok:
  assumes "\<not> (\<not> is_blank v \<and> (unparseable v \<or> jlt (parseFloat v) (Fin 0)))"
  shows "or0 (parseFloat v) \<noteq> NaN" and "\<not> jlt (or0 (parseFloat v)) (Fin 0)"
  using assms blank_parse [of v]
  by (auto simp add: or0_def unparseable_def isNaN_def)

lemma or0_idem: "or0 (or0 x) = or0 x"
  by (simp add: or0_def)

lemma pct_factor_nonneg: "jle (Fin (- 100)) (Fin x) \<Longrightarrow> 0 \<le> 1 + x / 100"
  by (auto simp add: jle_def)

lemma scaled_price_nonneg:
  assumes "p \<noteq> NaN" and "\<not> jlt p (Fin 0)" and "jle (Fin (- 100)) pct"
  shows "\<not> jlt (jmul p (jadd (Fin 1) (jdiv pct (Fin 100)))) (Fin 0)"
proof (cases p)
  case (Fin a)
  with assms(2) have a: "0 \<le> a" by simp
  show ?thesis
  proof (cases pct)
    case (Fin x)
    with assms(3) have "0 \<le> 1 + x / 100" by (simp add: pct_factor_nonneg)
    with a have "0 \<le> a * (1 + x / 100)" by (rule mult_nonneg_nonneg)
    then show ?thesis using \<open>p = Fin a\<close> \<open>pct = Fin x\<close> by (simp add: not_less)
  qed (use assms(3) \<open>p = Fin a\<close> a in \<open>auto simp add: jle_def inf_of_sign_def\<close>)
next
  case PInf
  show ?thesis
  proof (cases pct)
    case (Fin x)
    with assms(3) have "0 \<le> 1 + x / 100" by (simp add: pct_factor_nonneg)
    then show ?thesis using PInf \<open>pct = Fin x\<close> by (auto simp add: inf_of_sign_def)
  qed (use assms(3) PInf in \<open>auto simp add: jle_def inf_of_sign_def\<close>)
qed (use assms in auto)

lemma scaled_price_fin:
  "is_fin p \<Longrightarrow> is_fin pct \<Longrightarrow> jmul p (jadd (Fin 1) (jdiv pct (Fin 100))) \<noteq> NaN"
  by (auto simp add: is_fin_iff)


lemma calc_success_cases:
  assumes "calculateProfitability t0 inputs = Inr (Success d)"
  obtains v where "validateInputs inputs = Inr v" and "isValid v"
    and "d = profitability_data t0 inputs"
  using assms
  by (cases "validateInputs inputs") (auto simp add: calculateProfitability_def split: if_splits)

lemma validate_inf_price:
  "validateInputs inf_price_input = Inr \<lparr>isValid = True, errors = []\<rparr>"
  by (simp add: inf_price_input_def corn_input_def validate_defs parse_defs)

section \<open>Order and sums of numbers, and the fold of \<open>compareScenarios\<close>\<close>

lemma jlt_trans: "jlt a b \<Longrightarrow> jlt b c \<Longrightarrow> jlt a c"
  by (cases a; cases b; cases c) simp_all

lemma jle_jlt_trans: "jle a b \<Longrightarrow> jlt b c \<Longrightarrow> jlt a c"
  by (auto simp add: jle_def intro: jlt_trans)

lemma jlt_imp_jle: "jlt a b \<Longrightarrow> jle a b"
  by (simp add: jle_def)

lemma jlt_neq: "jlt a b \<Longrightarrow> a \<noteq> b"
  by (cases a; cases b) simp_all

lemma not_jlt_jle: "a \<noteq> NaN \<Longrightarrow> b \<noteq> NaN \<Longrightarrow> \<not> jlt b a \<Longrightarrow> jle a b"
  by (cases a; cases b) (auto simp add: jle_def)

lemma jle_refl: "a \<noteq> NaN \<Longrightarrow> jle a a"
  by (simp add: jle_def)

lemma foldl_pick_split:
  assumes "\<forall>y\<in>set (x # xs). f y \<noteq> NaN"
  shows "\<exists>pre post. x # xs = pre @ foldl (\<lambda>best current. if jgt (f current) (f best) then current else best) x xs # post
      \<and> (\<forall>y\<in>set pre. jlt (f y) (f (foldl (\<lambda>best current. if jgt (f current) (f best) then current else best) x xs)))
      \<and> (\<forall>y\<in>set post. jle (f y) (f (foldl (\<lambda>best current. if jgt (f current) (f best) then current else best) x xs)))"
  using assms
proof (induction xs rule: rev_induct)
  case Nil
  show ?case by (intro exI [of _ "[]"]) simp
next
  case (snoc z zs)
  let ?pick = "\<lambda>best current. if jgt (f current) (f best) then current else best"
  let ?b = "foldl ?pick x zs"
  from snoc.prems have nn: "\<forall>y\<in>set (x # zs). f y \<noteq> NaN" and zn: "f z \<noteq> NaN" by auto
  from snoc.IH [OF nn] obtain pre post where
    sp: "x # zs = pre @ ?b # post" and lo: "\<forall>y\<in>set pre. jlt (f y) (f ?b)"
    and hi: "\<forall>y\<in>set post. jle (f y) (f ?b)" by blast
  have "?b \<in> set (pre @ ?b # post)" by simp
  then have "?b \<in> set (x # zs)" by (simp only: sp [symmetric])
  with nn have bn: "f ?b \<noteq> NaN" by blast
  show ?case
  proof (cases "jgt (f z) (f ?b)")
    case True
    then have bz: "jlt (f ?b) (f z)" by (simp add: jgt_def)
    have eq: "foldl ?pick x (zs @ [z]) = z" using True by simp
    have "x # zs @ [z] = (pre @ ?b # post) @ z # []" using sp by simp
    moreover have "\<forall>y\<in>set (pre @ ?b # post). jlt (f y) (f z)"
      using lo hi bz by (auto intro: jlt_trans jle_jlt_trans)
    ultimately show ?thesis unfolding eq
      by (intro exI [of _ "pre @ ?b # post"] exI [of _ "[]"]) simp
  next
    case False
    then have "jle (f z) (f ?b)" using zn bn by (simp add: jgt_def not_jlt_jle)
    moreover have eq: "foldl ?pick x (zs @ [z]) = ?b" using False by simp
    moreover have "x # zs @ [z] = pre @ ?b # (post @ [z])" using sp by simp
    ultimately show ?thesis using lo hi unfolding eq
      by (intro exI [of _ pre] exI [of _ "post @ [z]"]) auto
  qed
qed

lemma find_after_prefix:
  "\<forall>y\<in>set pre. \<not> P y \<Longrightarrow> P b \<Longrightarrow> find P (pre @ b # post) = Some b"
  by (induction pre) simp_all

lemma foldl_pick_first_max:
  assumes "list_all (\<lambda>y. f y \<noteq> NaN) (x # xs)"
  shows "first_max f (x # xs)
     (foldl (\<lambda>best current. if jgt (f current) (f best) then current else best) x xs)"
proof -
  let ?b = "foldl (\<lambda>best current. if jgt (f current) (f best) then current else best) x xs"
  from assms have nn: "\<forall>y\<in>set (x # xs). f y \<noteq> NaN" by (simp add: list_all_iff)
  from foldl_pick_split [OF nn] obtain pre post where
    sp: "x # xs = pre @ ?b # post" and lo: "\<forall>y\<in>set pre. jlt (f y) (f ?b)"
    and hi: "\<forall>y\<in>set post. jle (f y) (f ?b)" by blast
  have "?b \<in> set (pre @ ?b # post)" by simp
  then have "?b \<in> set (x # xs)" by (simp only: sp [symmetric])
  with nn have bn: "f ?b \<noteq> NaN" by blast
  have "\<forall>y\<in>set (pre @ ?b # post). jle (f y) (f ?b)"
    using lo hi bn by (auto intro: jlt_imp_jle jle_refl)
  moreover have "find (\<lambda>y. f y = f ?b) (pre @ ?b # post) = Some ?b"
    using lo by (intro find_after_prefix) (auto dest: jlt_neq)
  ultimately show ?thesis unfolding first_max_def sp [symmetric] list_all_iff by blast
qed

lemma valid_data_fst: "map fst (List.map_filter valid_data scs) = filter succeeded scs"
  by (induction scs)
     (auto simp add: List.map_filter_simps valid_data_def succeeded_def
        split: option.splits calc_result.splits)

lemma valid_data_snd:
  "p \<in> set (List.map_filter valid_data scs) \<Longrightarrow> g (snd p) = metric g (fst p)"
  by (induction scs)
     (auto simp add: List.map_filter_simps valid_data_def metric_def
        split: option.splits calc_result.splits)

lemma foldl_pick_nan_first:
  "f x = NaN \<Longrightarrow>
   foldl (\<lambda>best current. if jgt (f current) (f best) then current else best) x xs = x"
  by (induction xs) (simp_all add: jgt_def)

lemma foldl_pick_skip_nan:
  "f x \<noteq> NaN \<Longrightarrow>
   foldl (\<lambda>best current. if jgt (f current) (f best) then current else best) x xs
   = foldl (\<lambda>best current. if jgt (f current) (f best) then current else best) x
       (filter (\<lambda>y. f y \<noteq> NaN) xs)"
proof (induction xs arbitrary: x)
  case Nil
  show ?case by simp
next
  case (Cons z zs)
  show ?case
  proof (cases "f z = NaN")
    case True
    then have "\<not> jgt (f z) (f x)" by (cases "f x") (simp_all add: jgt_def)
    then show ?thesis using True Cons.IH [OF Cons.prems] by simp
  next
    case False
    let ?x' = "if jgt (f z) (f x) then z else x"
    have "f ?x' \<noteq> NaN" using False Cons.prems by simp
    from Cons.IH [OF this] show ?thesis using False by simp
  qed
qed

lemma map_fst_filter_agree:
  assumes "\<forall>p\<in>set ps. h p = f (fst p)"
  shows "map fst (filter (\<lambda>p. h p \<noteq> NaN) ps) = filter (\<lambda>s. f s \<noteq> NaN) (map fst ps)"
  using assms by (induction ps) simp_all

lemma find_in_set: "find P xs = Some b \<Longrightarrow> b \<in> set xs"
  by (induction xs) (auto split: if_splits)

lemma find_agree: "\<forall>y\<in>set xs. P y = Q y \<Longrightarrow> find P xs = find Q xs"
  by (induction xs) simp_all

lemma find_map_fst: "find P (map fst ps) = map_option fst (find (\<lambda>p. P (fst p)) ps)"
  by (induction ps) simp_all

lemma first_max_map:
  assumes agree: "\<forall>p\<in>set ps. h p = f (fst p)" and fm: "first_max h ps b"
  shows "first_max f (map fst ps) (fst b)"
proof -
  from fm have all: "\<forall>y\<in>set ps. jle (h y) (h b)" and fd: "find (\<lambda>y. h y = h b) ps = Some b"
    by (simp_all add: first_max_def list_all_iff)
  from fd have b: "b \<in> set ps" by (rule find_in_set)
  have "\<forall>y\<in>set ps. jle (f (fst y)) (f (fst b))" using all agree b by auto
  moreover have "find (\<lambda>p. f (fst p) = f (fst b)) ps = find (\<lambda>y. h y = h b) ps"
    by (rule find_agree) (use agree b in auto)
  ultimately show ?thesis
    by (simp add: first_max_def list_all_iff find_map_fst fd)
qed

lemma foldl_sum_metric:
  assumes "\<forall>p\<in>set ps. g (snd p) = metric g (fst p)"
  shows "foldl (\<lambda>sum s. jadd sum (g (snd s))) a ps
           = foldl jadd a (map (metric g) (map fst ps))"
  using assms by (induction ps arbitrary: a) simp_all

section \<open>Lemmas about the store\<close>

lemma map_add_idem: "m ++ m = m"
  by (simp add: map_add_def fun_eq_iff split: option.splits)

lemma getSettings_eq:
  "getSettings s = (if available s then DEFAULT_SETTINGS ++ persisted_settings s else DEFAULT_SETTINGS)"
proof -
  have "DEFAULT_SETTINGS ++ Map.empty = DEFAULT_SETTINGS" by simp
  then show ?thesis
    by (cases "settings_slot s")
       (simp_all add: getSettings_def isStorageAvailable_def persisted_settings_def)
qed

lemma saveSettings_eq:
  "available s \<Longrightarrow> saveSettings s patch =
     (True, s\<lparr>settings_slot := Stored (DEFAULT_SETTINGS ++ persisted_settings s ++ patch)\<rparr>)"
proof -
  assume a: "available s"
  have "DEFAULT_SETTINGS ++ (DEFAULT_SETTINGS ++ persisted_settings s)
      = DEFAULT_SETTINGS ++ persisted_settings s"
    by (simp add: map_add_assoc [symmetric] map_add_idem)
  then show ?thesis using a
    by (simp add: saveSettings_def isStorageAvailable_def getSettings_eq Let_def
        map_add_assoc)
qed

lemma addToHistory_step:
  assumes "available s" and "parse_list (history_slot s) = Some h"
  shows "addToHistory s item =
     (True, s\<lparr>id_next := id_next s + 1, time_next := time_next s + 1,
              history_slot := Stored (take 100
                 (history_entry (id_seq s (id_next s)) (time_seq s (time_next s)) item # h))\<rparr>)"
  using assms
  by (simp add: addToHistory_def isStorageAvailable_def generateId_def read_clock_def
      history_entry_def Let_def)

lemma addToHistory_fail:
  "\<not> available s \<or> parse_list (history_slot s) = None \<Longrightarrow> addToHistory s item = (False, s)"
  by (auto simp add: addToHistory_def isStorageAvailable_def)

lemma parse_list_cases:
  obtains (unreadable) "parse_list sl = None" | (readable) h where "parse_list sl = Some h"
  by (cases "parse_list sl") auto

lemma addToHistory_bounded: "hist_bounded (snd (addToHistory s item))"
  if "hist_bounded s"
proof (cases "available s")
  case False
  then show ?thesis using that by (simp add: addToHistory_fail)
next
  case True
  show ?thesis
  proof (cases "history_slot s" rule: parse_list_cases)
    case unreadable
    then show ?thesis using that by (simp add: addToHistory_fail)
  next
    case (readable h)
    then show ?thesis using True by (simp add: addToHistory_step hist_bounded_def)
  qed
qed

lemma addToHistory_frame:
  "available (snd (addToHistory s item)) = available s"
  "scenarios_slot (snd (addToHistory s item)) = scenarios_slot s"
  "settings_slot (snd (addToHistory s item)) = settings_slot s"
  by (cases "available s"; cases "history_slot s" rule: parse_list_cases;
      simp add: addToHistory_fail addToHistory_step)+

lemma hist_bounded_cong:
  "history_slot s' = history_slot s \<Longrightarrow> hist_bounded s' = hist_bounded s"
  by (simp add: hist_bounded_def)

lemma ensure_frame:
  "history_slot (snd (ensure_id s x)) = history_slot s"
  "available (snd (ensure_id s x)) = available s"
  "scenarios_slot (snd (ensure_id s x)) = scenarios_slot s"
  "settings_slot (snd (ensure_id s x)) = settings_slot s"
  "history_slot (snd (ensure_savedAt s x)) = history_slot s"
  "available (snd (ensure_savedAt s x)) = available s"
  "scenarios_slot (snd (ensure_savedAt s x)) = scenarios_slot s"
  "settings_slot (snd (ensure_savedAt s x)) = settings_slot s"
  by (simp_all add: ensure_id_def ensure_savedAt_def generateId_def read_clock_def)

lemma saveScenario_fail:
  "\<not> available s \<or> parse_list (scenarios_slot s) = None \<Longrightarrow> saveScenario s x = (False, s)"
  by (auto simp add: saveScenario_def isStorageAvailable_def)

lemma saveScenario_step:
  assumes "available s" and "parse_list (scenarios_slot s) = Some scs"
  shows "saveScenario s x =
     (True, snd (addToHistory
        ((snd (ensure_savedAt (snd (ensure_id s x)) (fst (ensure_id s x))))
           \<lparr>scenarios_slot := Stored (upsert scs
               (fst (ensure_savedAt (snd (ensure_id s x)) (fst (ensure_id s x)))))\<rparr>)
        (fst (ensure_savedAt (snd (ensure_id s x)) (fst (ensure_id s x))))))"
  using assms
  by (simp add: saveScenario_def isStorageAvailable_def Let_def split_beta)

lemma saveScenario_bounded: "hist_bounded (snd (saveScenario s x))" if "hist_bounded s"
proof (cases "available s")
  case False
  then show ?thesis using that by (simp add: saveScenario_fail)
next
  case True
  show ?thesis
  proof (cases "scenarios_slot s" rule: parse_list_cases)
    case unreadable
    then show ?thesis using that by (simp add: saveScenario_fail)
  next
    case (readable scs)
    show ?thesis
      unfolding saveScenario_step [OF True readable] snd_conv
      by (rule addToHistory_bounded) (use that in \<open>simp add: hist_bounded_def ensure_frame\<close>)
  qed
qed

lemma import_bounded:
  "hist_bounded s \<Longrightarrow> hist_bounded (foldl (\<lambda>st0 scenario. snd (saveScenario st0 scenario)) s scs)"
  by (induction scs arbitrary: s) (simp_all add: saveScenario_bounded)

lemma getHistory_bounded: "hist_bounded s \<Longrightarrow> length (getHistory s limit) \<le> 100"
  by (auto simp add: getHistory_def hist_bounded_def parse_list_def slice0_def
      split: slot.splits option.splits)

lemma run_op_bounded: "hist_bounded s \<Longrightarrow> hist_bounded (run_op s op)"
proof (cases op)
  case (SaveScenario x)
  assume "hist_bounded s"
  then show ?thesis by (simp add: SaveScenario saveScenario_bounded)
next
  case (AddToHistory x)
  assume "hist_bounded s"
  then show ?thesis by (simp add: AddToHistory addToHistory_bounded)
next
  case (DeleteHistoryItem i)
  assume b: "hist_bounded s"
  have "length (filter P (getHistory s None)) \<le> 100" for P
    using getHistory_bounded [OF b, of None] length_filter_le [of P "getHistory s None"]
    by linarith
  then show ?thesis using b
    by (simp add: DeleteHistoryItem deleteHistoryItem_def hist_bounded_def)
next
  case (ImportData t)
  assume b: "hist_bounded s"
  have "hist_bounded (snd (saveSettings s' st))" if "hist_bounded s'" for s' st
    using that by (simp add: saveSettings_def hist_bounded_def Let_def)
  then show ?thesis using b
    by (auto simp add: ImportData importData_def Let_def import_bounded
        split: import_text.splits option.splits)
qed (auto simp add: hist_bounded_def updateScenario_def renameScenario_def deleteScenario_def
      deleteAllScenarios_def clearHistory_def saveSettings_def resetSettings_def
      saveLastCalculation_def exportData_def clearAllData_def read_clock_def Let_def
      split: option.splits prod.splits)

lemma run_ops_bounded: "hist_bounded s \<Longrightarrow> hist_bounded (run_ops s ops)"
  unfolding run_ops_def by (induction ops arbitrary: s) (simp_all add: run_op_bounded)

lemma take_append_take: "take n (xs @ take n ys) = take n (xs @ ys)"
  by (simp add: min_def)

lemma add_all_history:
  assumes "available s" and "parse_list (history_slot s) = Some h" and "length h \<le> 100"
  shows "available (add_all s items)
    \<and> parse_list (history_slot (add_all s items)) = Some (take 100 (rev (entries_of s items) @ h))"
  using assms
proof (induction items arbitrary: s h)
  case Nil
  then show ?case by (simp add: add_all_def entries_of_def)
next
  case (Cons x xs)
  let ?e = "history_entry (id_seq s (id_next s)) (time_seq s (time_next s)) x"
  let ?s1 = "snd (addToHistory s x)"
  have s1: "?s1 = s\<lparr>id_next := id_next s + 1, time_next := time_next s + 1,
              history_slot := Stored (take 100 (?e # h))\<rparr>"
    by (simp add: addToHistory_step [OF Cons.prems(1,2)])
  have a1: "available ?s1" and p1: "parse_list (history_slot ?s1) = Some (take 100 (?e # h))"
    and l1: "length (take 100 (?e # h)) \<le> 100"
    using Cons.prems(1) by (simp_all add: s1 parse_list_def)
  have e1: "entries_of ?s1 xs = entries (id_seq s) (Suc (id_next s)) (time_seq s) (Suc (time_next s)) xs"
    by (simp add: s1 entries_of_def)
  have step: "add_all s (x # xs) = add_all ?s1 xs" by (simp add: add_all_def)
  have IH: "available (add_all ?s1 xs)
    \<and> parse_list (history_slot (add_all ?s1 xs))
        = Some (take 100 (rev (entries_of ?s1 xs) @ take 100 (?e # h)))"
    by (rule Cons.IH [OF a1 p1 l1])
  have "entries_of s (x # xs) = ?e # entries_of ?s1 xs"
    unfolding e1 by (simp add: entries_of_def)
  then have "take 100 (rev (entries_of ?s1 xs) @ take 100 (?e # h))
      = take 100 (rev (entries_of s (x # xs)) @ h)"
    by (simp only: take_append_take rev.simps append_assoc append_Cons append_Nil)
  with IH show ?case unfolding step by simp
qed

lemma history_entry_props:
  "history_entry i t item ''id'' = (case item ''id'' of Some v \<Rightarrow> Some v | None \<Rightarrow> Some (VStr i))"
  "history_entry i t item ''addedAt'' = Some (VStr t)"
  "k \<noteq> ''id'' \<Longrightarrow> k \<noteq> ''addedAt'' \<Longrightarrow> history_entry i t item k = item k"
  by (simp_all add: history_entry_def map_add_def split: option.splits)

lemma getHistory_after_add:
  assumes "available s" and "parse_list (history_slot s) = Some h"
  shows "getHistory (snd (addToHistory s item)) None
     = take 100 (history_entry (id_seq s (id_next s)) (time_seq s (time_next s)) item # h)"
  using assms(1)
  by (simp add: addToHistory_step [OF assms] getHistory_def isStorageAvailable_def parse_list_def)

lemma ids_of_entries_fresh:
  "list_all (\<lambda>x. x ''id'' = None) items \<Longrightarrow>
   ids_of (entries ids i ts t items) = map (\<lambda>k. Some (VStr (ids k))) [i..<i + length items]"
proof (induction items arbitrary: i t)
  case Nil
  then show ?case by (simp add: ids_of_def)
next
  case (Cons x xs)
  then have "ids_of (entries ids (Suc i) ts (Suc t) xs)
      = map (\<lambda>k. Some (VStr (ids k))) [Suc i..<Suc i + length xs]"
    by simp
  moreover have "[i..<i + length (x # xs)] = i # [Suc i..<Suc i + length xs]"
    by (subst upt_conv_Cons) simp_all
  ultimately show ?case using Cons.prems
    by (simp add: ids_of_def history_entry_props del: upt_Suc)
qed

lemma distinct_fresh_ids:
  assumes "inj ids" and "list_all (\<lambda>x. x ''id'' = None) items"
  shows "distinct (ids_of (entries ids i ts t items))"
proof -
  have "inj (\<lambda>k. Some (VStr (ids k)))"
    using assms(1) by (auto simp add: inj_def)
  then show ?thesis
    unfolding ids_of_entries_fresh [OF assms(2)] by (simp add: distinct_map inj_on_def inj_def)
qed

lemma ids_of_take_rev: "ids_of (take n (rev xs)) = take n (rev (ids_of xs))"
  by (simp add: ids_of_def take_map rev_map)

lemma add_all_prefix:
  assumes "available s" and "parse_list (history_slot s) = Some h"
  shows "\<exists>n. getHistory (add_all s items) None = take n (rev (entries_of s items) @ h)"
proof (cases items)
  case Nil
  have "getHistory s None = take (length h) h"
    using assms by (simp add: getHistory_def isStorageAvailable_def)
  then have "getHistory (add_all s items) None = take (length h) (rev (entries_of s items) @ h)"
    using Nil by (simp add: add_all_def entries_of_def)
  then show ?thesis by (rule exI)
next
  case (Cons x xs)
  let ?e = "history_entry (id_seq s (id_next s)) (time_seq s (time_next s)) x"
  let ?s1 = "snd (addToHistory s x)"
  have s1: "?s1 = s\<lparr>id_next := id_next s + 1, time_next := time_next s + 1,
              history_slot := Stored (take 100 (?e # h))\<rparr>"
    by (simp add: addToHistory_step [OF assms])
  have a1: "available ?s1" and p1: "parse_list (history_slot ?s1) = Some (take 100 (?e # h))"
    and l1: "length (take 100 (?e # h)) \<le> 100"
    using assms(1) by (simp_all add: s1 parse_list_def)
  have e1: "entries_of ?s1 xs = entries (id_seq s) (Suc (id_next s)) (time_seq s) (Suc (time_next s)) xs"
    by (simp add: s1 entries_of_def)
  have step: "add_all s (x # xs) = add_all ?s1 xs" by (simp add: add_all_def)
  have r: "available (add_all ?s1 xs)
    \<and> parse_list (history_slot (add_all ?s1 xs))
        = Some (take 100 (rev (entries_of ?s1 xs) @ take 100 (?e # h)))"
    by (rule add_all_history [OF a1 p1 l1])
  have "entries_of s (x # xs) = ?e # entries_of ?s1 xs"
    unfolding e1 by (simp add: entries_of_def)
  then have "take 100 (rev (entries_of ?s1 xs) @ take 100 (?e # h))
      = take 100 (rev (entries_of s (x # xs)) @ h)"
    by (simp only: take_append_take rev.simps append_assoc append_Cons append_Nil)
  with r have "getHistory (add_all s items) None = take 100 (rev (entries_of s items) @ h)"
    unfolding Cons step by (simp add: getHistory_def isStorageAvailable_def)
  then show ?thesis by blast
qed

lemma add_all_distinct:
  assumes "available s" and "parse_list (history_slot s) = Some h" and "distinct (ids_of h)"
    and "inj (id_seq s)" and "list_all (\<lambda>x. x ''id'' = None) items"
    and "\<forall>n. id_next s \<le> n \<longrightarrow> Some (VStr (id_seq s n)) \<notin> set (ids_of h)"
  shows "distinct (ids_of (getHistory (add_all s items) None))"
proof -
  have fresh: "ids_of (entries_of s items)
      = map (\<lambda>k. Some (VStr (id_seq s k))) [id_next s..<id_next s + length items]"
    unfolding entries_of_def by (rule ids_of_entries_fresh [OF assms(5)])
  have d: "distinct (ids_of (entries_of s items))"
    unfolding entries_of_def by (rule distinct_fresh_ids [OF assms(4,5)])
  have "set (ids_of (entries_of s items)) \<inter> set (ids_of h) = {}"
    unfolding fresh using assms(6) by auto
  with d assms(3) have "distinct (ids_of (rev (entries_of s items) @ h))"
    by (simp add: ids_of_def rev_map [symmetric])
  then have "distinct (take n (ids_of (rev (entries_of s items) @ h)))" for n
    by (rule distinct_take)
  then have "distinct (ids_of (take n (rev (entries_of s items) @ h)))" for n
    by (simp only: ids_of_def take_map)
  moreover obtain n where "getHistory (add_all s items) None = take n (rev (entries_of s items) @ h)"
    using add_all_prefix [OF assms(1,2)] by blast
  ultimately show ?thesis by simp
qed

lemma fresh_facts:
  "available fresh_store" "scenarios_slot fresh_store = Absent"
  "history_slot fresh_store = Absent" "settings_slot fresh_store = Absent"
  "id_next fresh_store = 0" "time_next fresh_store = 0"
  by (simp_all add: fresh_store_def)

lemma scenario_a_wf: "truthy (scenario_a ''id'')" "truthy (scenario_a ''savedAt'')"
  "scenario_a ''id'' = Some (VStr ''s1'')"
  by (simp_all add: scenario_a_def)

lemma save_a_twice:
  "getHistory (run_ops fresh_store [SaveScenario scenario_a, SaveScenario scenario_a]) None
     = [history_entry (id_seq fresh_store 1) (time_seq fresh_store 1) scenario_a,
        history_entry (id_seq fresh_store 0) (time_seq fresh_store 0) scenario_a]"
proof -
  have e: "ensure_id s scenario_a = (scenario_a, s)" "ensure_savedAt s scenario_a = (scenario_a, s)"
    for s
    by (simp_all add: ensure_id_def ensure_savedAt_def scenario_a_wf)
  let ?s1 = "snd (saveScenario fresh_store scenario_a)"
  have s1: "?s1 = fresh_store\<lparr>id_next := 1, time_next := 1,
       history_slot := Stored [history_entry (id_seq fresh_store 0) (time_seq fresh_store 0) scenario_a],
       scenarios_slot := Stored [scenario_a]\<rparr>"
    by (simp add: saveScenario_step [of _ "[]"] fresh_facts parse_list_def e upsert_def
        addToHistory_step [of _ "[]"])
  have av: "available ?s1" "parse_list (scenarios_slot ?s1) = Some [scenario_a]"
    "parse_list (history_slot ?s1)
       = Some [history_entry (id_seq fresh_store 0) (time_seq fresh_store 0) scenario_a]"
    by (simp_all add: s1 fresh_facts parse_list_def)
  have "getHistory (snd (saveScenario ?s1 scenario_a)) None
     = [history_entry (id_seq fresh_store 1) (time_seq fresh_store 1) scenario_a,
        history_entry (id_seq fresh_store 0) (time_seq fresh_store 0) scenario_a]"
    unfolding saveScenario_step [OF av(1,2)] e fst_conv snd_conv
    by (subst getHistory_after_add [where h = "[history_entry (id_seq fresh_store 0) (time_seq fresh_store 0) scenario_a]"])
       (simp_all add: av s1 fresh_facts parse_list_def)
  then show ?thesis by (simp add: run_ops_def)
qed

lemma inj_fresh_ids: "inj (id_seq fresh_store)"
  by (simp add: inj_def fresh_store_def)

lemma no_id_clash_append:
  "no_id_clash (xs @ ys) \<longleftrightarrow>
     no_id_clash xs \<and> no_id_clash ys
     \<and> (\<forall>a\<in>set xs. \<forall>b\<in>set ys. \<not> strict_eq (a ''id'') (b ''id''))"
  by (induction xs) (auto simp add: list_all_iff)

lemma findIndex_None: "findIndex P xs = None \<longleftrightarrow> (\<forall>x\<in>set xs. \<not> P x)"
  by (induction xs) auto

lemma saveScenario_new:
  assumes av: "available e" and sc: "parse_list (scenarios_slot e) = Some pre"
    and hi: "parse_list (history_slot e) = Some h"
    and wf: "well_formed_scenario x"
    and nc: "\<forall>p\<in>set pre. \<not> strict_eq (p ''id'') (x ''id'')"
  shows "saveScenario e x =
     (True, e\<lparr>scenarios_slot := Stored (pre @ [x]),
              id_next := id_next e + 1, time_next := time_next e + 1,
              history_slot := Stored (take 100
                 (history_entry (id_seq e (id_next e)) (time_seq e (time_next e)) x # h))\<rparr>)"
proof -
  have e: "ensure_id e x = (x, e)" "ensure_savedAt e x = (x, e)"
    using wf by (simp_all add: ensure_id_def ensure_savedAt_def well_formed_scenario_def)
  have u: "upsert pre x = pre @ [x]"
    using nc by (simp add: upsert_def findIndex_None [THEN iffD2])
  show ?thesis
    unfolding saveScenario_step [OF av sc] e fst_conv snd_conv u
    by (subst addToHistory_step [where h = h]) (simp_all add: av hi)
qed

lemma save_all_fresh:
  assumes "available e" and "parse_list (scenarios_slot e) = Some pre"
    and "parse_list (history_slot e) = Some h" and "length h \<le> 100"
    and "list_all well_formed_scenario scs" and "no_id_clash (pre @ scs)"
  shows "available (save_all e scs)
     \<and> parse_list (scenarios_slot (save_all e scs)) = Some (pre @ scs)
     \<and> parse_list (history_slot (save_all e scs)) = Some (take 100 (rev (entries_of e scs) @ h))
     \<and> settings_slot (save_all e scs) = settings_slot e"
  using assms
proof (induction scs arbitrary: e pre h)
  case Nil
  then show ?case by (simp add: save_all_def entries_of_def)
next
  case (Cons x xs)
  let ?e = "history_entry (id_seq e (id_next e)) (time_seq e (time_next e)) x"
  let ?e1 = "snd (saveScenario e x)"
  from Cons.prems(5) have wf: "well_formed_scenario x" and wfs: "list_all well_formed_scenario xs"
    by simp_all
  from Cons.prems(6) have nc: "\<forall>p\<in>set pre. \<not> strict_eq (p ''id'') (x ''id'')"
    and ncs: "no_id_clash ((pre @ [x]) @ xs)"
    by (auto simp add: no_id_clash_append list_all_iff)
  have e1: "?e1 = e\<lparr>scenarios_slot := Stored (pre @ [x]),
              id_next := id_next e + 1, time_next := time_next e + 1,
              history_slot := Stored (take 100 (?e # h))\<rparr>"
    by (simp add: saveScenario_new [OF Cons.prems(1,2,3) wf nc])
  have a1: "available ?e1" and p1: "parse_list (scenarios_slot ?e1) = Some (pre @ [x])"
    and h1: "parse_list (history_slot ?e1) = Some (take 100 (?e # h))"
    and l1: "length (take 100 (?e # h)) \<le> 100"
    and t1: "settings_slot ?e1 = settings_slot e"
    using Cons.prems(1) by (simp_all add: e1 parse_list_def)
  have en: "entries_of ?e1 xs
     = entries (id_seq e) (Suc (id_next e)) (time_seq e) (Suc (time_next e)) xs"
    by (simp add: e1 entries_of_def)
  have step: "save_all e (x # xs) = save_all ?e1 xs" by (simp add: save_all_def)
  have IH: "available (save_all ?e1 xs)
     \<and> parse_list (scenarios_slot (save_all ?e1 xs)) = Some ((pre @ [x]) @ xs)
     \<and> parse_list (history_slot (save_all ?e1 xs))
         = Some (take 100 (rev (entries_of ?e1 xs) @ take 100 (?e # h)))
     \<and> settings_slot (save_all ?e1 xs) = settings_slot ?e1"
    by (rule Cons.IH [OF a1 p1 h1 l1 wfs ncs])
  have "entries_of e (x # xs) = ?e # entries_of ?e1 xs"
    unfolding en by (simp add: entries_of_def)
  then have "take 100 (rev (entries_of ?e1 xs) @ take 100 (?e # h))
      = take 100 (rev (entries_of e (x # xs)) @ h)"
    by (simp only: take_append_take rev.simps append_assoc append_Cons append_Nil)
  with IH t1 show ?case unfolding step by simp
qed

lemma getSettings_absorb: "DEFAULT_SETTINGS ++ getSettings s = getSettings s"
  by (simp add: getSettings_eq map_add_assoc [symmetric] map_add_idem)

lemma entries_keep_ids:
  "list_all well_formed_scenario xs \<Longrightarrow> ids_of (entries ids i ts t xs) = ids_of xs"
proof (induction xs arbitrary: i t)
  case Nil
  then show ?case by (simp add: ids_of_def)
next
  case (Cons x xs)
  from Cons.prems have "truthy (x ''id'')" by (simp add: well_formed_scenario_def)
  then obtain v where "x ''id'' = Some v" by (cases "x ''id''") auto
  then have "history_entry (ids i) (ts t) x ''id'' = x ''id''"
    by (simp add: history_entry_props)
  with Cons show ?case by (simp add: ids_of_def)
qed

lemma getScenarios_readable:
  "available x \<Longrightarrow> parse_list (scenarios_slot x) = Some xs \<Longrightarrow> getScenarios x = xs"
  by (simp add: getScenarios_def isStorageAvailable_def)

lemma getHistory_readable:
  "available x \<Longrightarrow> parse_list (history_slot x) = Some h \<Longrightarrow> getHistory x None = h"
  by (simp add: getHistory_def isStorageAvailable_def)

lemma import_of_export:
  "importData e (json_of (fst (exportData s)))
      = (Imported (length (getScenarios s)),
         snd (saveSettings (save_all e (getScenarios s)) (getSettings s)))"
proof -
  have rc: "getScenarios (snd (read_clock s)) = getScenarios s"
    "getHistory (snd (read_clock s)) None = getHistory s None"
    "getSettings (snd (read_clock s)) = getSettings s"
    by (simp_all add: read_clock_def getScenarios_def getHistory_def getSettings_def
        isStorageAvailable_def)
  have ex: "json_of (fst (exportData s)) =
      Json \<lparr>in_version = Some ''1.0'', in_scenarios = Some (getScenarios s),
            in_history = Some (getHistory s None), in_settings = Some (getSettings s)\<rparr>"
    by (simp add: exportData_def json_of_def split_beta Let_def rc)
  show ?thesis
    unfolding ex by (simp add: importData_def save_all_def Let_def)
qed

lemma import_into_empty:
  assumes "available e" and "scenarios_slot e = Absent" and "history_slot e = Absent"
    and "settings_slot e = Absent"
    and "list_all well_formed_scenario scs" and "no_id_clash scs"
  shows "getScenarios (snd (saveSettings (save_all e scs) st)) = scs"
    and "getSettings (snd (saveSettings (save_all e scs) st)) = DEFAULT_SETTINGS ++ st"
    and "getHistory (snd (saveSettings (save_all e scs) st)) None
           = take 100 (rev (entries_of e scs))"
proof -
  have sa: "available (save_all e scs)
     \<and> parse_list (scenarios_slot (save_all e scs)) = Some ([] @ scs)
     \<and> parse_list (history_slot (save_all e scs)) = Some (take 100 (rev (entries_of e scs) @ []))
     \<and> settings_slot (save_all e scs) = settings_slot e"
    by (rule save_all_fresh) (use assms in \<open>simp_all add: parse_list_def\<close>)
  let ?e1 = "save_all e scs"
  have pe: "persisted_settings ?e1 = Map.empty"
    using sa assms(4) by (simp add: persisted_settings_def)
  have ss: "snd (saveSettings ?e1 st) = ?e1\<lparr>settings_slot := Stored (DEFAULT_SETTINGS ++ st)\<rparr>"
    using sa by (simp add: saveSettings_eq pe)
  show "getScenarios (snd (saveSettings ?e1 st)) = scs"
    unfolding ss by (rule getScenarios_readable) (use sa in simp_all)
  show "getHistory (snd (saveSettings ?e1 st)) None = take 100 (rev (entries_of e scs))"
    unfolding ss by (rule getHistory_readable) (use sa in simp_all)
  show "getSettings (snd (saveSettings ?e1 st)) = DEFAULT_SETTINGS ++ st"
    unfolding ss using sa
    by (simp add: getSettings_eq persisted_settings_def map_add_assoc [symmetric] map_add_idem)
qed

lemma scenarios_wf:
  "well_formed_scenario scenario_a" "well_formed_scenario scenario_b"
  "\<not> strict_eq (scenario_a ''id'') (scenario_b ''id'')"
  by (simp_all add: well_formed_scenario_def scenario_a_def scenario_b_def)

lemma fresh_save_a:
  "snd (saveScenario fresh_store scenario_a) =
     fresh_store\<lparr>scenarios_slot := Stored [scenario_a], id_next := 1, time_next := 1,
        history_slot := Stored
          [history_entry (id_seq fresh_store 0) (time_seq fresh_store 0) scenario_a]\<rparr>"
  using saveScenario_new [of fresh_store "[]" "[]" scenario_a]
  by (simp add: fresh_facts parse_list_def scenarios_wf)

lemma cleared_store_slots:
  "available cleared_store" "scenarios_slot cleared_store = Stored [scenario_a]"
  "history_slot cleared_store = Absent"
  by (simp_all add: cleared_store_def run_ops_def fresh_save_a clearHistory_def
      isStorageAvailable_def fresh_facts)

lemma two_scenario_store_slots:
  "available two_scenario_store"
  "scenarios_slot two_scenario_store = Stored [scenario_a, scenario_b]"
proof -
  let ?s1 = "snd (saveScenario fresh_store scenario_a)"
  have s1: "available ?s1" "parse_list (scenarios_slot ?s1) = Some [scenario_a]"
    "parse_list (history_slot ?s1)
       = Some [history_entry (id_seq fresh_store 0) (time_seq fresh_store 0) scenario_a]"
    by (simp_all add: fresh_save_a fresh_facts parse_list_def)
  let ?s2 = "snd (saveScenario ?s1 scenario_b)"
  have s2: "available ?s2" "scenarios_slot ?s2 = Stored ([scenario_a] @ [scenario_b])"
    using saveScenario_new [OF s1 scenarios_wf(2)] s1(1) by (simp_all add: scenarios_wf)
  have t: "two_scenario_store = snd (saveSettings ?s2 [''currency'' \<mapsto> VStr ''eur''])"
    by (simp add: two_scenario_store_def run_ops_def)
  show "available two_scenario_store"
    "scenarios_slot two_scenario_store = Stored [scenario_a, scenario_b]"
    unfolding t saveSettings_eq [OF s2(1)] using s2 by simp_all
qed

section \<open>Properties of the calculator\<close>

text \<open>
  Claim C1. For every input that passes validation, \<open>calculateProfitability\<close> returns a
  success whose data echo the parsed inputs and satisfy
  \<open>netProfit = revenue - totalCost\<close> and \<open>revenue = acres * yieldPerAcre * marketPrice\<close>,
  the difference and the products being those of the language, the product taken from
  the left; the other figures are the helpers applied to these. For the corn example of
  the specification the result has production 18000, revenue 81000, total cost 27000,
  net profit 54000 and profit per acre 540, and its profit margin is the quotient of the
  net profit by the revenue, times 100: a number within 0.005 of 66.67.
\<close>

theorem calculateProfitability_formulas:
  "(validateInputs inputs = Inr v \<and> isValid v \<longrightarrow>
      (\<exists>d. calculateProfitability now inputs = Inr (Success d)
         \<and> acres d = parseFloat (acreage inputs)
         \<and> r_yieldPerAcre d = parseFloat (yieldPerAcre inputs)
         \<and> r_marketPrice d = parseFloat (marketPrice inputs)
         \<and> production d = jmul (acres d) (r_yieldPerAcre d)
         \<and> revenue d = jmul (jmul (acres d) (r_yieldPerAcre d)) (r_marketPrice d)
         \<and> netProfit d = jsub (revenue d) (totalCost d)
         \<and> profitPerAcre d = jdiv (netProfit d) (acres d)
         \<and> profitMargin d =
             (if revenue d = Fin 0 then Fin 0
              else jmul (jdiv (netProfit d) (revenue d)) (Fin 100))))
   \<and> (\<exists>d m. calculateProfitability now corn_input = Inr (Success d)
         \<and> production d = Fin 18000 \<and> revenue d = Fin 81000 \<and> totalCost d = Fin 27000
         \<and> netProfit d = Fin 54000 \<and> profitPerAcre d = Fin 540
         \<and> profitMargin d = jmul (jdiv (netProfit d) (revenue d)) (Fin 100)
         \<and> profitMargin d = Fin m \<and> \<bar>m - 66.67\<bar> < 0.005)"
proof (intro conjI impI)
  assume a: "validateInputs inputs = Inr v \<and> isValid v"
  then have pos: "\<not> jle (parseFloat (acreage inputs)) (Fin 0)"
    using valid_conditions(4) [of inputs v] by simp
  then have nz: "parseFloat (acreage inputs) \<noteq> Fin 0" by (auto simp add: jle_def)
  from a nz show "\<exists>d. calculateProfitability now inputs = Inr (Success d)
         \<and> acres d = parseFloat (acreage inputs)
         \<and> r_yieldPerAcre d = parseFloat (yieldPerAcre inputs)
         \<and> r_marketPrice d = parseFloat (marketPrice inputs)
         \<and> production d = jmul (acres d) (r_yieldPerAcre d)
         \<and> revenue d = jmul (jmul (acres d) (r_yieldPerAcre d)) (r_marketPrice d)
         \<and> netProfit d = jsub (revenue d) (totalCost d)
         \<and> profitPerAcre d = jdiv (netProfit d) (acres d)
         \<and> profitMargin d =
             (if revenue d = Fin 0 then Fin 0
              else jmul (jdiv (netProfit d) (revenue d)) (Fin 100))"
    by (simp add: calculateProfitability_def profitability_data_def Let_def
        calculateProduction_def calculateRevenue_def calculateNetProfit_def
        calculateProfitPerAcre_def calculateProfitMargin_def)
next
  have "calculateProfitability now corn_input = Inr (Success (profitability_data now corn_input))"
    by (simp add: calculateProfitability_def validate_corn)
  moreover have "production (profitability_data now corn_input) = Fin 18000"
    "revenue (profitability_data now corn_input) = Fin 81000"
    "totalCost (profitability_data now corn_input) = Fin 27000"
    "netProfit (profitability_data now corn_input) = Fin 54000"
    "profitPerAcre (profitability_data now corn_input) = Fin 540"
    "profitMargin (profitability_data now corn_input) = Fin (200 / 3)"
    by (simp_all add: corn_input_def calc_defs)
  moreover have "\<bar>200 / 3 - 66.67\<bar> < (0.005 :: real)" by simp
  ultimately show "\<exists>d m. calculateProfitability now corn_input = Inr (Success d)
         \<and> production d = Fin 18000 \<and> revenue d = Fin 81000 \<and> totalCost d = Fin 27000
         \<and> netProfit d = Fin 54000 \<and> profitPerAcre d = Fin 540
         \<and> profitMargin d = jmul (jdiv (netProfit d) (revenue d)) (Fin 100)
         \<and> profitMargin d = Fin m \<and> \<bar>m - 66.67\<bar> < 0.005"
    by (intro exI [of _ "profitability_data now corn_input"] exI [of _ "200 / 3"]) simp
qed

theorem calculateProfitability_formulas_witness:
  "validateInputs form_input = Inr \<lparr>isValid = True, errors = []\<rparr>
   \<and> isValid \<lparr>isValid = True, errors = []\<rparr>
   \<and> (\<exists>d. calculateProfitability ''2024-05-01T12:00:00.000Z'' form_input = Inr (Success d)
         \<and> acres d = Fin 50 \<and> r_yieldPerAcre d = Fin 60.5 \<and> r_marketPrice d = Fin 6
         \<and> netProfit d = jsub (revenue d) (totalCost d)
         \<and> revenue d = jmul (jmul (Fin 50) (Fin 60.5)) (Fin 6))"
proof -
  have p: "parseFloat (acreage form_input) = Fin 50"
    "parseFloat (yieldPerAcre form_input) = Fin 60.5"
    "parseFloat (marketPrice form_input) = Fin 6"
    by (simp_all add: form_input_def parse_defs)
  show ?thesis
    using calculateProfitability_formulas
      [of form_input "\<lparr>isValid = True, errors = []\<rparr>" "''2024-05-01T12:00:00.000Z''"]
    by (simp add: validate_form) (auto simp add: p)
qed

text \<open>
  Claim C5. When \<open>validateInputs\<close> reports an input invalid, \<open>calculateProfitability\<close>
  returns (it does not raise) the failure that carries the very error list of
  \<open>validateInputs\<close>, in the same order.
\<close>

theorem calculateProfitability_fails_closed:
  "validateInputs inputs = Inr v \<Longrightarrow> \<not> isValid v \<Longrightarrow>
     calculateProfitability now inputs = Inr (Failure (errors v))"
  by (simp add: calculateProfitability_def)

theorem calculateProfitability_fails_closed_witness:
  "validateInputs bad_input = Inr \<lparr>isValid = False, errors =
  [''Crop type is required'', ''Acres planted must be greater than 0'', ''Expected yield cannot be negative'',
   ''Market price is required'', ''seedCost cannot be negative'', ''laborCost cannot be negative'']\<rparr>
   \<and> calculateProfitability ''t'' bad_input = Inr (Failure 
  [''Crop type is required'', ''Acres planted must be greater than 0'', ''Expected yield cannot be negative'',
   ''Market price is required'', ''seedCost cannot be negative'', ''laborCost cannot be negative''])"
  using calculateProfitability_fails_closed [OF validate_bad, of "''t''"] validate_bad by simp


text \<open>
  Claim C9. The three divisions are guarded: \<open>calculateProfitPerAcre\<close> is 0 when the acres
  parse to 0, \<open>calculateProfitMargin\<close> is 0 when the revenue parses to 0, and
  \<open>calculateCostPerUnit\<close> is 0 when the production parses to 0; otherwise each is the
  quotient of the parsed arguments (times 100 for the margin). The other helpers are the
  product, the difference and the guarded sum of what they parse. So every helper
  returns a number on every pair of arguments, whatever they parse to: none of them
  has a case in which it raises.
\<close>

theorem helpers_guarded:
  "(parseFloat acres0 = Fin 0 \<longrightarrow> calculateProfitPerAcre x acres0 = Fin 0)
   \<and> (parseFloat revenue0 = Fin 0 \<longrightarrow> calculateProfitMargin x revenue0 = Fin 0)
   \<and> (parseFloat production0 = Fin 0 \<longrightarrow> calculateCostPerUnit x production0 = Fin 0)
   \<and> (parseFloat b \<noteq> Fin 0 \<longrightarrow>
        calculateProfitPerAcre a b = jdiv (parseFloat a) (parseFloat b)
        \<and> calculateProfitMargin a b = jmul (jdiv (parseFloat a) (parseFloat b)) (Fin 100)
        \<and> calculateCostPerUnit a b = jdiv (parseFloat a) (parseFloat b))
   \<and> calculateProduction a b = jmul (parseFloat a) (parseFloat b)
   \<and> calculateRevenue a b = jmul (parseFloat a) (parseFloat b)
   \<and> calculateNetProfit a b = jsub (parseFloat a) (parseFloat b)
   \<and> calculateTotalCost a costs =
        jmul (parseFloat a)
          (foldl (\<lambda>acc kv. jadd acc (if jlt (Fin 0) (parseFloat (snd kv)) then parseFloat (snd kv)
                                       else Fin 0))
             (Fin 0) costs)"
proof -
  have "add_cost = (\<lambda>acc kv. jadd acc (if jlt (Fin 0) (parseFloat (snd kv)) then parseFloat (snd kv)
                                       else Fin 0))"
  proof (intro ext)
    fix acc kv
    show "add_cost acc kv
      = jadd acc (if jlt (Fin 0) (parseFloat (snd kv)) then parseFloat (snd kv) else Fin 0)"
      by (cases "parseFloat (snd kv)") (auto simp add: add_cost_def or0_def jge_def jle_def Let_def)
  qed
  then show ?thesis
    by (simp add: calculateProfitPerAcre_def calculateProfitMargin_def calculateCostPerUnit_def
      calculateProduction_def calculateRevenue_def calculateNetProfit_def calculateTotalCost_def)
qed

theorem helpers_guarded_witness:
  "parseFloat (Str (utf16 ''1e-324'')) = Fin 0
   \<and> calculateProfitPerAcre (Num (Fin 540)) (Str (utf16 ''1e-324'')) = Fin 0
   \<and> parseFloat (Num (Fin 0)) = Fin 0 \<and> calculateProfitMargin (Num (Fin 540)) (Num (Fin 0)) = Fin 0
   \<and> parseFloat (Str (utf16 ''0.0'')) = Fin 0
   \<and> calculateCostPerUnit (Num (Fin 540)) (Str (utf16 ''0.0'')) = Fin 0
   \<and> parseFloat (Str (utf16 ''12'')) \<noteq> Fin 0
   \<and> calculateProfitPerAcre (Str (utf16 ''540'')) (Str (utf16 ''12'')) = Fin 45
   \<and> calculateProfitPerAcre (Str (utf16 ''abc'')) (Str (utf16 ''Infinity'')) = NaN"
proof -
  have p: "parseFloat (Str (utf16 ''1e-324'')) = Fin 0" "parseFloat (Str (utf16 ''0.0'')) = Fin 0"
     "parseFloat (Str (utf16 ''12'')) = Fin 12" "parseFloat (Str (utf16 ''abc'')) = NaN"
     "parseFloat (Str (utf16 ''540'')) = Fin 540" "parseFloat (Str (utf16 ''Infinity'')) = PInf"
    by (simp_all add: parse_defs)
  note c = helpers_guarded [of "Str (utf16 ''1e-324'')" "Num (Fin 540)" "Num (Fin 0)"
      "Str (utf16 ''0.0'')" "Str (utf16 ''12'')" "Str (utf16 ''540'')" "[]"]
  note d = helpers_guarded [of "Str (utf16 ''1e-324'')" "Num (Fin 540)" "Num (Fin 0)"
      "Str (utf16 ''0.0'')" "Str (utf16 ''Infinity'')" "Str (utf16 ''abc'')" "[]"]
  from c p have 1: "calculateProfitPerAcre (Num (Fin 540)) (Str (utf16 ''1e-324'')) = Fin 0"
    "calculateProfitMargin (Num (Fin 540)) (Num (Fin 0)) = Fin 0"
    "calculateCostPerUnit (Num (Fin 540)) (Str (utf16 ''0.0'')) = Fin 0"
    by simp_all
  from c p have 2: "calculateProfitPerAcre (Str (utf16 ''540'')) (Str (utf16 ''12'')) = Fin 45"
    by simp
  from d p have 3: "calculateProfitPerAcre (Str (utf16 ''abc'')) (Str (utf16 ''Infinity'')) = NaN"
    by simp
  show ?thesis using p 1 2 3 by simp
qed


text \<open>
  Claim C4, as stated, with ``empty'' read as absent, \<open>null\<close> or the empty string: it
  fails for a crop type of three spaces. No rule of the claim is violated, so the claim
  promises a valid result; \<open>validateInputs\<close> trims the crop type first and reports
  \<open>Crop type is required\<close>.
\<close>

theorem validateInputs_spaces_counterexample:
  "expected_errors crop_empty spaces_input = []
   \<and> validateInputs spaces_input =
       Inr \<lparr>isValid = False, errors = [''Crop type is required'']\<rparr>"
proof -
  have "validateInputs spaces_input = Inr \<lparr>isValid = False, errors = [''Crop type is required'']\<rparr>"
    by (simp add: spaces_input_def validate_defs parse_defs)
  moreover have "filter (violates crop_empty spaces_input) declared_fields = []"
    by (simp add: declared_fields_def costFields_def violates_def crop_empty_def
        input_field_def spaces_input_def is_blank_def unparseable_def isNaN_def jle_def
        parse_defs)
  ultimately show ?thesis by (simp add: expected_errors_def)
qed

text \<open>
  Claim C4, amended. For an input whose crop type is a string or absent,
  \<open>validateInputs\<close> returns one message for every field that violates its rule, in the
  order the fields are declared (crop type, acreage, yield, market price, then the six
  costs), and \<open>isValid\<close> holds exactly when no field violates its rule. The rules: the crop
  type is absent, empty or only white space; the acreage is missing, unparseable or at
  most 0; the yield or the price is missing, unparseable or negative; a cost that is
  present is unparseable or negative. What a field parses to is what \<open>parseFloat\<close> reads:
  a number too small to be told from 0 is 0, one too large to be finite is an infinity.
\<close>

theorem validateInputs_rules:
  assumes "is_text (cropType inputs)"
  shows "validateInputs inputs =
     Inr \<lparr>isValid = list_all (\<lambda>f. \<not> violates crop_empty_or_spaces inputs f) declared_fields,
          errors = map (rule_message inputs)
                     (filter (violates crop_empty_or_spaces inputs) declared_fields)\<rparr>"
proof -
  have "(expected_errors crop_empty_or_spaces inputs = [])
      = list_all (\<lambda>f. \<not> violates crop_empty_or_spaces inputs f) declared_fields"
    by (simp add: expected_errors_def filter_empty_conv list_all_iff)
  then show ?thesis
    using validateInputs_text [OF assms] by (simp add: expected_errors_def)
qed

theorem validateInputs_rules_witness:
  "is_text (cropType bad_input)
   \<and> validateInputs bad_input =
       Inr \<lparr>isValid = False,
            errors =
              [''Crop type is required'', ''Acres planted must be greater than 0'',
               ''Expected yield cannot be negative'', ''Market price is required'',
               ''seedCost cannot be negative'', ''laborCost cannot be negative'']\<rparr>
   \<and> is_text (cropType edge_input)
   \<and> validateInputs edge_input =
       Inr \<lparr>isValid = False,
            errors =
              [''Crop type is required'', ''Acres planted must be greater than 0'',
               ''miscCost cannot be negative'']\<rparr>"
proof -
  have t: "is_text (cropType bad_input)" by (simp add: is_text_def bad_input_def)
  have "filter (violates crop_empty_or_spaces bad_input) declared_fields
      = [''cropType'', ''acreage'', ''yieldPerAcre'', ''marketPrice'', ''seedCost'', ''laborCost'']"
    by (simp add: declared_fields_def costFields_def violates_def crop_empty_or_spaces_def
        input_field_def bad_input_def is_blank_def unparseable_def isNaN_def jle_def parse_defs)
  moreover from this
  have "\<not> list_all (\<lambda>f. \<not> violates crop_empty_or_spaces bad_input f) declared_fields"
    by (simp add: list_all_iff filter_empty_conv [symmetric])
  ultimately have 1: "validateInputs bad_input =
       Inr \<lparr>isValid = False,
            errors =
              [''Crop type is required'', ''Acres planted must be greater than 0'',
               ''Expected yield cannot be negative'', ''Market price is required'',
               ''seedCost cannot be negative'', ''laborCost cannot be negative'']\<rparr>"
    using validateInputs_rules [OF t]
    by (simp add: rule_message_def bad_input_def is_blank_def utf16_def)
  have t': "is_text (cropType edge_input)" by (simp add: is_text_def edge_input_def)
  have p: "parseFloat (acreage edge_input) = Fin 0" "parseFloat (yieldPerAcre edge_input) = Fin 0"
    "parseFloat (marketPrice edge_input) = PInf" "parseFloat (seedCost edge_input) = Fin 7.5"
    "parseFloat (equipmentCost edge_input) = Fin 5" "parseFloat (miscCost edge_input) = Fin (- 0.5)"
    by (simp_all add: edge_input_def parse_defs)
  have "filter (violates crop_empty_or_spaces edge_input) declared_fields
      = [''cropType'', ''acreage'', ''miscCost'']"
    by (simp add: declared_fields_def costFields_def violates_def crop_empty_or_spaces_def
        input_field_def p unparseable_def isNaN_def jle_def)
       (simp add: edge_input_def is_blank_def is_ws_def utf16_def)
  moreover from this
  have "\<not> list_all (\<lambda>f. \<not> violates crop_empty_or_spaces edge_input f) declared_fields"
    by (simp add: list_all_iff filter_empty_conv [symmetric])
  ultimately have 2: "validateInputs edge_input =
       Inr \<lparr>isValid = False,
            errors =
              [''Crop type is required'', ''Acres planted must be greater than 0'',
               ''miscCost cannot be negative'']\<rparr>"
    using validateInputs_rules [OF t']
    by (simp add: rule_message_def) (simp add: edge_input_def is_blank_def utf16_def)
  show ?thesis using t 1 t' 2 by simp
qed

text \<open>
  The condition on the crop type cannot be dropped: a crop type that is a number other
  than 0 and \<open>NaN\<close> is truthy and has no \<open>trim\<close>, so the validation raises; 0 and \<open>NaN\<close>
  are falsy and get the message of a missing crop type.
\<close>

lemma validateInputs_number_crop:
  "validateInputs (corn_input\<lparr>cropType := Num (Fin 7)\<rparr>) = Inl TypeError"
  "validateInputs (corn_input\<lparr>cropType := Num PInf\<rparr>) = Inl TypeError"
  "validateInputs (corn_input\<lparr>cropType := Num (Fin 0)\<rparr>)
     = Inr \<lparr>isValid = False, errors = [''Crop type is required'']\<rparr>"
  "validateInputs (corn_input\<lparr>cropType := Num NaN\<rparr>)
     = Inr \<lparr>isValid = False, errors = [''Crop type is required'']\<rparr>"
  by (simp_all add: corn_input_def validate_defs)

text \<open>
  Claim C8, as stated: it fails when the first scenario that succeeded has a net profit
  that is not a number. The validation accepts a yield of 0 with the market price
  \<open>Infinity\<close>; the revenue is then \<open>0 * Infinity\<close>, and the net profit is \<open>NaN\<close>. No number
  is greater than \<open>NaN\<close>, so the fold never leaves the first scenario: the best profit
  returned is that scenario, although the second one has a net profit of 54000.
\<close>

theorem compareScenarios_nan_counterexample:
  "calculateProfitability ''t'' nan_input = Inr (Success (profitability_data ''t'' nan_input))
   \<and> filter succeeded nan_scenarios = nan_scenarios
   \<and> map (metric netProfit) nan_scenarios = [NaN, Fin 54000]
   \<and> map_option bestProfit (compareScenarios nan_scenarios) = Some (nan_scenarios ! 0)
   \<and> \<not> jle (metric netProfit (nan_scenarios ! 1)) (metric netProfit (nan_scenarios ! 0))
   \<and> \<not> first_max (metric netProfit) (filter succeeded nan_scenarios) (nan_scenarios ! 0)"
proof -
  have v: "validateInputs nan_input = Inr \<lparr>isValid = True, errors = []\<rparr>"
    by (simp add: nan_input_def corn_input_def validate_defs parse_defs)
  have np: "netProfit (profitability_data ''t'' nan_input) = NaN"
    "netProfit (profitability_data ''t'' corn_input) = Fin 54000"
    by (simp_all add: calc_defs nan_input_def corn_input_def parse_defs inf_of_sign_def)
  have m: "map (metric netProfit) nan_scenarios = [NaN, Fin 54000]"
    by (simp add: nan_scenarios_def metric_def np)
  have f: "filter succeeded nan_scenarios = nan_scenarios"
    by (simp add: nan_scenarios_def succeeded_def)
  have b: "map_option bestProfit (compareScenarios nan_scenarios) = Some (nan_scenarios ! 0)"
    by (simp add: compareScenarios_def nan_scenarios_def valid_data_def List.map_filter_simps
        reduce1_def np jgt_def Let_def)
  from m have m': "metric netProfit (nan_scenarios ! 0) = NaN"
    "metric netProfit (nan_scenarios ! 1) = Fin 54000"
    by (simp_all add: nan_scenarios_def)
  show ?thesis
    using v m f b m'
    by (simp add: calculateProfitability_def first_max_def jle_def nan_scenarios_def)
qed

text \<open>
  Claim C8, amended. \<open>compareScenarios\<close> returns no result exactly when no scenario of the
  input has a successful calculation (so also on the empty input). Otherwise its result
  lists the scenarios that succeeded, in input order, with their number. When the net
  profit of the first of them is a number, the best profit is the first scenario, in
  input order, that has the greatest net profit among those whose net profit is a
  number; when it is \<open>NaN\<close>, the best profit is that first scenario. The same holds of the
  best profit per acre. The totals of revenue, cost and profit are the sums over the
  scenarios that succeeded, added from the left, and the mean profit per acre is their
  sum divided by their number.
\<close>

theorem compareScenarios_summary:
  "(compareScenarios scs = None \<longleftrightarrow> filter succeeded scs = [])
   \<and> (compareScenarios scs = Some r \<longrightarrow>
        scenarios r = filter succeeded scs
      \<and> totalScenarios r = length (filter succeeded scs)
      \<and> (metric netProfit (hd (filter succeeded scs)) \<noteq> NaN \<longrightarrow>
           first_max (metric netProfit)
             (filter (\<lambda>s. metric netProfit s \<noteq> NaN) (filter succeeded scs)) (bestProfit r))
      \<and> (metric netProfit (hd (filter succeeded scs)) = NaN \<longrightarrow>
           bestProfit r = hd (filter succeeded scs))
      \<and> (metric profitPerAcre (hd (filter succeeded scs)) \<noteq> NaN \<longrightarrow>
           first_max (metric profitPerAcre)
             (filter (\<lambda>s. metric profitPerAcre s \<noteq> NaN) (filter succeeded scs))
             (bestProfitPerAcre r))
      \<and> (metric profitPerAcre (hd (filter succeeded scs)) = NaN \<longrightarrow>
           bestProfitPerAcre r = hd (filter succeeded scs))
      \<and> totalRevenue (comparison r) = js_sum (map (metric revenue) (filter succeeded scs))
      \<and> cmp_totalCost (comparison r) = js_sum (map (metric totalCost) (filter succeeded scs))
      \<and> totalProfit (comparison r) = js_sum (map (metric netProfit) (filter succeeded scs))
      \<and> averageProfitPerAcre (comparison r) =
           jdiv (js_sum (map (metric profitPerAcre) (filter succeeded scs)))
             (Fin (real (length (filter succeeded scs)))))"
proof (intro conjI)
  let ?ps = "List.map_filter valid_data scs"
  have F1: "map fst ?ps = filter succeeded scs" by (rule valid_data_fst)
  have F2: "\<forall>p\<in>set ?ps. g (snd p) = metric g (fst p)" for g
    by (simp add: valid_data_snd)
  show "compareScenarios scs = None \<longleftrightarrow> filter succeeded scs = []"
  proof -
    have "compareScenarios scs = None \<longleftrightarrow> ?ps = []"
      by (cases ?ps) (auto simp add: compareScenarios_def Let_def List.map_filter_simps)
    also have "\<dots> \<longleftrightarrow> map fst ?ps = []" by simp
    finally show ?thesis by (simp only: F1)
  qed
  show "compareScenarios scs = Some r \<longrightarrow>
        scenarios r = filter succeeded scs
      \<and> totalScenarios r = length (filter succeeded scs)
      \<and> (metric netProfit (hd (filter succeeded scs)) \<noteq> NaN \<longrightarrow>
           first_max (metric netProfit)
             (filter (\<lambda>s. metric netProfit s \<noteq> NaN) (filter succeeded scs)) (bestProfit r))
      \<and> (metric netProfit (hd (filter succeeded scs)) = NaN \<longrightarrow>
           bestProfit r = hd (filter succeeded scs))
      \<and> (metric profitPerAcre (hd (filter succeeded scs)) \<noteq> NaN \<longrightarrow>
           first_max (metric profitPerAcre)
             (filter (\<lambda>s. metric profitPerAcre s \<noteq> NaN) (filter succeeded scs))
             (bestProfitPerAcre r))
      \<and> (metric profitPerAcre (hd (filter succeeded scs)) = NaN \<longrightarrow>
           bestProfitPerAcre r = hd (filter succeeded scs))
      \<and> totalRevenue (comparison r) = js_sum (map (metric revenue) (filter succeeded scs))
      \<and> cmp_totalCost (comparison r) = js_sum (map (metric totalCost) (filter succeeded scs))
      \<and> totalProfit (comparison r) = js_sum (map (metric netProfit) (filter succeeded scs))
      \<and> averageProfitPerAcre (comparison r) =
           jdiv (js_sum (map (metric profitPerAcre) (filter succeeded scs)))
             (Fin (real (length (filter succeeded scs))))"
  proof
    assume some: "compareScenarios scs = Some r"
    then obtain v vs where ps: "?ps = v # vs"
      by (cases ?ps) (auto simp add: compareScenarios_def split: if_splits)
    let ?pickN = "\<lambda>best current. if jgt (netProfit (snd current)) (netProfit (snd best))
                    then current else best"
    let ?pickA = "\<lambda>best current. if jgt (profitPerAcre (snd current)) (profitPerAcre (snd best))
                    then current else best"
    from some ps have r: "r =
        \<lparr>totalScenarios = length (v # vs),
         bestProfit = fst (foldl ?pickN v vs),
         bestProfitPerAcre = fst (foldl ?pickA v vs),
         scenarios = map fst (v # vs),
         comparison =
           \<lparr>totalRevenue = foldl (\<lambda>sum s. jadd sum (revenue (snd s))) (Fin 0) (v # vs),
            cmp_totalCost = foldl (\<lambda>sum s. jadd sum (totalCost (snd s))) (Fin 0) (v # vs),
            totalProfit = foldl (\<lambda>sum s. jadd sum (netProfit (snd s))) (Fin 0) (v # vs),
            averageProfitPerAcre =
              jdiv (foldl (\<lambda>sum s. jadd sum (profitPerAcre (snd s))) (Fin 0) (v # vs))
                (Fin (real (length (v # vs))))\<rparr>\<rparr>"
      by (simp add: compareScenarios_def Let_def reduce1_def del: foldl.simps split: if_splits)
    have len: "length (v # vs) = length (filter succeeded scs)"
      using F1 ps by (metis length_map)
    have hd_eq: "hd (filter succeeded scs) = fst v"
      unfolding F1 [symmetric] ps by simp
    have gv: "g (snd v) = metric g (fst v)" for g
      using F2 [of g] ps by simp
    have sums: "foldl (\<lambda>sum s. jadd sum (g (snd s))) (Fin 0) (v # vs)
        = js_sum (map (metric g) (filter succeeded scs))" for g
      unfolding js_sum_def F1 [symmetric] ps [symmetric]
      by (rule foldl_sum_metric) (rule F2)
    have best: "first_max (metric g) (filter (\<lambda>s. metric g s \<noteq> NaN) (filter succeeded scs))
        (fst (foldl (\<lambda>best current. if jgt (g (snd current)) (g (snd best))
                    then current else best) v vs))"
      if nn: "metric g (hd (filter succeeded scs)) \<noteq> NaN" for g
    proof -
      let ?pick = "\<lambda>best current. if jgt (g (snd current)) (g (snd best)) then current else best"
      let ?ws = "filter (\<lambda>p. g (snd p) \<noteq> NaN) vs"
      from nn have vn: "g (snd v) \<noteq> NaN" by (simp add: hd_eq gv)
      have skip: "foldl ?pick v vs = foldl ?pick v ?ws"
        using vn by (rule foldl_pick_skip_nan [where f = "\<lambda>p. g (snd p)"])
      have "list_all (\<lambda>p. g (snd p) \<noteq> NaN) (v # ?ws)"
        using vn by (simp add: list_all_iff)
      then have "first_max (\<lambda>p. g (snd p)) (v # ?ws) (foldl ?pick v ?ws)"
        by (rule foldl_pick_first_max)
      moreover have "\<forall>p\<in>set (v # ?ws). g (snd p) = metric g (fst p)"
        using F2 [of g] ps by auto
      ultimately have "first_max (metric g) (map fst (v # ?ws)) (fst (foldl ?pick v ?ws))"
        by (rule first_max_map [rotated])
      moreover have "map fst (v # ?ws)
          = filter (\<lambda>s. metric g s \<noteq> NaN) (filter succeeded scs)"
      proof -
        have "v # ?ws = filter (\<lambda>p. g (snd p) \<noteq> NaN) (v # vs)" using vn by simp
        then show ?thesis
          unfolding F1 [symmetric] ps
          by (simp only: map_fst_filter_agree [OF F2 [of g, unfolded ps]])
      qed
      ultimately show ?thesis by (simp only: skip)
    qed
    have first: "fst (foldl (\<lambda>best current. if jgt (g (snd current)) (g (snd best))
                    then current else best) v vs) = hd (filter succeeded scs)"
      if nan: "metric g (hd (filter succeeded scs)) = NaN" for g
    proof -
      from nan have "g (snd v) = NaN" by (simp add: hd_eq gv)
      then have "foldl (\<lambda>best current. if jgt (g (snd current)) (g (snd best))
                    then current else best) v vs = v"
        by (rule foldl_pick_nan_first [where f = "\<lambda>p. g (snd p)"])
      then show ?thesis by (simp only: hd_eq)
    qed
    show "scenarios r = filter succeeded scs
      \<and> totalScenarios r = length (filter succeeded scs)
      \<and> (metric netProfit (hd (filter succeeded scs)) \<noteq> NaN \<longrightarrow>
           first_max (metric netProfit)
             (filter (\<lambda>s. metric netProfit s \<noteq> NaN) (filter succeeded scs)) (bestProfit r))
      \<and> (metric netProfit (hd (filter succeeded scs)) = NaN \<longrightarrow>
           bestProfit r = hd (filter succeeded scs))
      \<and> (metric profitPerAcre (hd (filter succeeded scs)) \<noteq> NaN \<longrightarrow>
           first_max (metric profitPerAcre)
             (filter (\<lambda>s. metric profitPerAcre s \<noteq> NaN) (filter succeeded scs))
             (bestProfitPerAcre r))
      \<and> (metric profitPerAcre (hd (filter succeeded scs)) = NaN \<longrightarrow>
           bestProfitPerAcre r = hd (filter succeeded scs))
      \<and> totalRevenue (comparison r) = js_sum (map (metric revenue) (filter succeeded scs))
      \<and> cmp_totalCost (comparison r) = js_sum (map (metric totalCost) (filter succeeded scs))
      \<and> totalProfit (comparison r) = js_sum (map (metric netProfit) (filter succeeded scs))
      \<and> averageProfitPerAcre (comparison r) =
           jdiv (js_sum (map (metric profitPerAcre) (filter succeeded scs)))
             (Fin (real (length (filter succeeded scs))))"
      unfolding r
      using best [of netProfit] best [of profitPerAcre] first [of netProfit]
        first [of profitPerAcre]
      by (simp only: scenario.simps comparison.simps comparison_totals.simps sums len
            F1 [unfolded ps] simp_thms) blast
  qed
qed

theorem compareScenarios_summary_witness:
  "filter succeeded demo_scenarios = [demo_scenarios ! 0, demo_scenarios ! 3]
   \<and> metric netProfit (hd (filter succeeded demo_scenarios)) \<noteq> NaN
   \<and> metric netProfit (hd (filter succeeded nan_scenarios)) = NaN
   \<and> (\<exists>r. compareScenarios demo_scenarios = Some r
         \<and> scenarios r = [demo_scenarios ! 0, demo_scenarios ! 3]
         \<and> totalScenarios r = 2
         \<and> bestProfit r = demo_scenarios ! 0
         \<and> totalProfit (comparison r) = Fin 108000)
   \<and> (\<exists>r. compareScenarios nan_scenarios = Some r
         \<and> bestProfit r = nan_scenarios ! 0
         \<and> totalProfit (comparison r) = NaN)"
proof -
  have np: "netProfit (profitability_data ''t'' corn_input) = Fin 54000"
    "netProfit (profitability_data ''t'' nan_input) = NaN"
    by (simp_all add: calc_defs corn_input_def nan_input_def parse_defs inf_of_sign_def)
  have f: "filter succeeded demo_scenarios = [demo_scenarios ! 0, demo_scenarios ! 3]"
    by (simp add: demo_scenarios_def succeeded_def)
  have m: "metric netProfit (demo_scenarios ! 0) = Fin 54000"
    "metric netProfit (demo_scenarios ! 3) = Fin 54000"
    by (simp_all add: demo_scenarios_def metric_def np)
  have nn: "metric netProfit (hd (filter succeeded demo_scenarios)) \<noteq> NaN"
    by (simp add: f m)
  obtain r where r: "compareScenarios demo_scenarios = Some r"
    using compareScenarios_summary [of demo_scenarios "the (compareScenarios demo_scenarios)"] f
    by (cases "compareScenarios demo_scenarios") auto
  note c = compareScenarios_summary [of demo_scenarios r]
  from c r nn have fm: "first_max (metric netProfit)
      (filter (\<lambda>s. metric netProfit s \<noteq> NaN) (filter succeeded demo_scenarios)) (bestProfit r)"
    by blast
  then have b: "bestProfit r = demo_scenarios ! 0"
    unfolding f by (auto simp add: first_max_def m jle_def split: if_splits)
  from c r have t: "scenarios r = [demo_scenarios ! 0, demo_scenarios ! 3]"
    "totalScenarios r = 2" "totalProfit (comparison r) = Fin 108000"
    by (simp_all add: f m js_sum_def)
  have f': "filter succeeded nan_scenarios = [nan_scenarios ! 0, nan_scenarios ! 1]"
    by (simp add: nan_scenarios_def succeeded_def)
  have m': "metric netProfit (nan_scenarios ! 0) = NaN"
    "metric netProfit (nan_scenarios ! 1) = Fin 54000"
    by (simp_all add: nan_scenarios_def metric_def np)
  have nan: "metric netProfit (hd (filter succeeded nan_scenarios)) = NaN"
    by (simp add: f' m')
  obtain r' where r': "compareScenarios nan_scenarios = Some r'"
    using compareScenarios_summary [of nan_scenarios "the (compareScenarios nan_scenarios)"] f'
    by (cases "compareScenarios nan_scenarios") auto
  note c' = compareScenarios_summary [of nan_scenarios r']
  from c' r' nan have "bestProfit r' = hd (filter succeeded nan_scenarios)" by blast
  then have b': "bestProfit r' = nan_scenarios ! 0" by (simp add: f')
  from c' r' have t': "totalProfit (comparison r') = NaN"
    by (simp add: f' m' js_sum_def)
  show ?thesis using f nn nan r b t r' b' t' by simp
qed

text \<open>
  Claim C10, as stated: it fails for a result with an infinite market price and a change
  of -100 percent. The new price is \<open>Infinity * 0\<close>, which is \<open>NaN\<close>, and the validation of
  the recomputation rejects it: the new calculation is a failure.
\<close>

theorem whatIfPriceChange_infinite_price_counterexample:
  "calculateProfitability ''t0'' inf_price_input =
     Inr (Success (profitability_data ''t0'' inf_price_input))
   \<and> jle (Fin (- 100)) (Fin (- 100))
   \<and> map_sum id (map_option newCalculation)
        (whatIfPriceChange ''t1'' (Success (profitability_data ''t0'' inf_price_input))
           (Fin (- 100)))
     = Inr (Some (Failure [''Market price cannot be negative'']))"
proof -
  have r: "r_cropType (profitability_data ''t0'' inf_price_input) = Str (utf16 ''corn'')"
    "acres (profitability_data ''t0'' inf_price_input) = Fin 100"
    "r_yieldPerAcre (profitability_data ''t0'' inf_price_input) = Fin 180"
    "r_marketPrice (profitability_data ''t0'' inf_price_input) = PInf"
    "costBreakdown (profitability_data ''t0'' inf_price_input) =
       \<lparr>cb_seedCost = Fin 60, cb_fertilizerCost = Fin 80, cb_chemicalCost = Fin 40,
        cb_laborCost = Fin 50, cb_equipmentCost = Fin 30, cb_miscCost = Fin 10\<rparr>"
    by (simp_all add: profitability_data_def inf_price_input_def corn_input_def or0_def parse_defs)
  show ?thesis
    by (simp add: calculateProfitability_def validate_inf_price whatIfPriceChange_def r
          inf_of_sign_def jle_def Let_def)
       (simp add: validate_defs is_ws_def utf16_def)
qed

text \<open>
  Claim C10, amended. For a result \<open>d\<close> that \<open>calculateProfitability\<close> returned with
  success and a change of at least -100 percent, whenever the scaled price
  \<open>marketPrice * (1 + percent / 100)\<close> is a number, \<open>whatIfPriceChange\<close> returns a new
  calculation that is a success with the same crop type, acres, yield, production, cost
  breakdown, total cost and cost per acre, and with the scaled price as its market
  price. The scaled price is a number whenever the market price and the percentage are
  finite.
\<close>

theorem whatIfPriceChange_preserves:
  assumes "calculateProfitability t0 inputs = Inr (Success d)" and "jle (Fin (- 100)) pct"
  shows "(jmul (r_marketPrice d) (jadd (Fin 1) (jdiv pct (Fin 100))) \<noteq> NaN \<longrightarrow>
      (\<exists>w d'. whatIfPriceChange t1 (Success d) pct = Inr (Some w)
         \<and> originalCalculation w = Success d
         \<and> newCalculation w = Success d'
         \<and> r_cropType d' = r_cropType d \<and> acres d' = acres d
         \<and> r_yieldPerAcre d' = r_yieldPerAcre d \<and> production d' = production d
         \<and> costBreakdown d' = costBreakdown d \<and> totalCost d' = totalCost d
         \<and> costPerAcre d' = costPerAcre d
         \<and> r_marketPrice d' = jmul (r_marketPrice d) (jadd (Fin 1) (jdiv pct (Fin 100)))))
    \<and> (is_fin (r_marketPrice d) \<and> is_fin pct \<longrightarrow>
         jmul (r_marketPrice d) (jadd (Fin 1) (jdiv pct (Fin 100))) \<noteq> NaN)"
proof (intro conjI impI)
  assume nn: "jmul (r_marketPrice d) (jadd (Fin 1) (jdiv pct (Fin 100))) \<noteq> NaN"
  from assms(1) obtain v where v: "validateInputs inputs = Inr v" "isValid v"
    and d: "d = profitability_data t0 inputs"
    by (rule calc_success_cases)
  note c = valid_conditions [OF v]
  define np where "np = jmul (r_marketPrice d) (jadd (Fin 1) (jdiv pct (Fin 100)))"
  define m where "m =
     \<lparr>cropType = r_cropType d, acreage = Num (acres d), yieldPerAcre = Num (r_yieldPerAcre d),
      marketPrice = Num np,
      seedCost = Num (cb_seedCost (costBreakdown d)),
      fertilizerCost = Num (cb_fertilizerCost (costBreakdown d)),
      chemicalCost = Num (cb_chemicalCost (costBreakdown d)),
      laborCost = Num (cb_laborCost (costBreakdown d)),
      equipmentCost = Num (cb_equipmentCost (costBreakdown d)),
      miscCost = Num (cb_miscCost (costBreakdown d))\<rparr>"
  have dfields: "r_cropType d = cropType inputs" "acres d = parseFloat (acreage inputs)"
    "r_yieldPerAcre d = parseFloat (yieldPerAcre inputs)"
    "r_marketPrice d = parseFloat (marketPrice inputs)"
    "costBreakdown d = \<lparr>cb_seedCost = or0 (parseFloat (seedCost inputs)),
                   cb_fertilizerCost = or0 (parseFloat (fertilizerCost inputs)),
                   cb_chemicalCost = or0 (parseFloat (chemicalCost inputs)),
                   cb_laborCost = or0 (parseFloat (laborCost inputs)),
                   cb_equipmentCost = or0 (parseFloat (equipmentCost inputs)),
                   cb_miscCost = or0 (parseFloat (miscCost inputs))\<rparr>"
    by (simp_all add: d profitability_data_def Let_def)
  have costs_ok: "\<not> cost_bad inputs ''seedCost''" "\<not> cost_bad inputs ''fertilizerCost''"
    "\<not> cost_bad inputs ''chemicalCost''" "\<not> cost_bad inputs ''laborCost''"
    "\<not> cost_bad inputs ''equipmentCost''" "\<not> cost_bad inputs ''miscCost''"
    using c(11) by (simp_all add: costFields_def split: if_splits)
  have o: "or0 (parseFloat (seedCost inputs)) \<noteq> NaN"
      "\<not> jlt (or0 (parseFloat (seedCost inputs))) (Fin 0)"
      "or0 (parseFloat (fertilizerCost inputs)) \<noteq> NaN"
      "\<not> jlt (or0 (parseFloat (fertilizerCost inputs))) (Fin 0)"
      "or0 (parseFloat (chemicalCost inputs)) \<noteq> NaN"
      "\<not> jlt (or0 (parseFloat (chemicalCost inputs))) (Fin 0)"
      "or0 (parseFloat (laborCost inputs)) \<noteq> NaN"
      "\<not> jlt (or0 (parseFloat (laborCost inputs))) (Fin 0)"
      "or0 (parseFloat (equipmentCost inputs)) \<noteq> NaN"
      "\<not> jlt (or0 (parseFloat (equipmentCost inputs))) (Fin 0)"
      "or0 (parseFloat (miscCost inputs)) \<noteq> NaN"
      "\<not> jlt (or0 (parseFloat (miscCost inputs))) (Fin 0)"
    using costs_ok by (simp_all add: cost_bad_def input_field_def or0_ok)
  have price_ok: "\<not> jlt np (Fin 0)"
    unfolding np_def dfields by (rule scaled_price_nonneg [OF c(9) c(10) assms(2)])
  have m_costs: "filter (cost_bad m) costFields = []"
    using o by (simp add: costFields_def cost_bad_def input_field_def m_def dfields
        is_blank_def unparseable_def isNaN_def)
  have m_valid: "validateInputs m = Inr \<lparr>isValid = True, errors = []\<rparr>"
  proof (rule valid_intro)
    show "filter (cost_bad m) costFields = []" by (rule m_costs)
  qed (use c nn price_ok in \<open>simp_all add: m_def dfields is_blank_def jle_def np_def\<close>)
  have m_calc: "calculateProfitability t1 m = Inr (Success (profitability_data t1 m))"
    by (simp add: calculateProfitability_def m_valid)
  have w: "whatIfPriceChange t1 (Success d) pct =
      Inr (Some \<lparr>originalCalculation = Success d,
                newCalculation = Success (profitability_data t1 m),
                scenarioName = (if jgt pct (Fin 0) then ''+'' else [], pct),
                priceChange = \<lparr>originalPrice = r_marketPrice d, newPrice = np,
                                changePercent = pct\<rparr>\<rparr>)"
    unfolding whatIfPriceChange_def Let_def
    by (simp add: m_calc [unfolded m_def np_def] m_def np_def)
  have same: "r_cropType (profitability_data t1 m) = r_cropType d"
    "acres (profitability_data t1 m) = acres d"
    "r_yieldPerAcre (profitability_data t1 m) = r_yieldPerAcre d"
    "production (profitability_data t1 m) = production d"
    "costBreakdown (profitability_data t1 m) = costBreakdown d"
    "totalCost (profitability_data t1 m) = totalCost d"
    "costPerAcre (profitability_data t1 m) = costPerAcre d"
    "r_marketPrice (profitability_data t1 m) = np"
    by (simp_all add: d profitability_data_def Let_def m_def or0_idem)
  show "\<exists>w d'. whatIfPriceChange t1 (Success d) pct = Inr (Some w)
         \<and> originalCalculation w = Success d
         \<and> newCalculation w = Success d'
         \<and> r_cropType d' = r_cropType d \<and> acres d' = acres d
         \<and> r_yieldPerAcre d' = r_yieldPerAcre d \<and> production d' = production d
         \<and> costBreakdown d' = costBreakdown d \<and> totalCost d' = totalCost d
         \<and> costPerAcre d' = costPerAcre d
         \<and> r_marketPrice d' = jmul (r_marketPrice d) (jadd (Fin 1) (jdiv pct (Fin 100)))"
    using w same unfolding np_def by simp
next
  assume "is_fin (r_marketPrice d) \<and> is_fin pct"
  then show "jmul (r_marketPrice d) (jadd (Fin 1) (jdiv pct (Fin 100))) \<noteq> NaN"
    by (simp add: scaled_price_fin)
qed

theorem whatIfPriceChange_preserves_witness:
  "calculateProfitability ''t0'' corn_input = Inr (Success (profitability_data ''t0'' corn_input))
   \<and> jle (Fin (- 100)) (Fin 10)
   \<and> (\<exists>w d'. whatIfPriceChange ''t1'' (Success (profitability_data ''t0'' corn_input)) (Fin 10)
          = Inr (Some w)
        \<and> newCalculation w = Success d'
        \<and> production d' = Fin 18000 \<and> totalCost d' = Fin 27000
        \<and> r_marketPrice d' = Fin 4.95)"
proof -
  have a: "calculateProfitability ''t0'' corn_input
      = Inr (Success (profitability_data ''t0'' corn_input))"
    by (simp add: calculateProfitability_def validate_corn)
  have b: "jle (Fin (- 100)) (Fin 10)" by (simp add: jle_def)
  have r: "r_marketPrice (profitability_data ''t0'' corn_input) = Fin 4.5"
    "production (profitability_data ''t0'' corn_input) = Fin 18000"
    "totalCost (profitability_data ''t0'' corn_input) = Fin 27000"
    by (simp_all add: calc_defs corn_input_def)
  show ?thesis
    using whatIfPriceChange_preserves [OF a b, of "''t1''"] a b by (auto simp add: r)
qed


section \<open>Properties of the store\<close>

text \<open>
  What the settings functions compute, with the defaults as they are at the time of the
  call: \<open>saveSettings\<close> persists the defaults overlaid by the persisted settings overlaid
  by the patch, a later layer winning on every key, and \<open>getSettings\<close> returns a new
  object of the defaults overlaid by the persisted settings, or the object of the
  defaults itself. While that object has the properties it was made with, these are the
  functions of the store.
\<close>

lemma settings_merge_ref:
  "(available (medium w) \<longrightarrow>
      saveSettings_ref w patch =
        (True, w\<lparr>medium := (medium w)\<lparr>settings_slot :=
                   Stored (defaults_now w ++ persisted_settings (medium w) ++ patch)\<rparr>\<rparr>))
   \<and> (\<not> available (medium w) \<longrightarrow> saveSettings_ref w patch = (False, w))
   \<and> (\<forall>k. (defaults_now w ++ persisted_settings (medium w) ++ patch) k =
          (case patch k of Some v \<Rightarrow> Some v
           | None \<Rightarrow> (case persisted_settings (medium w) k of Some v \<Rightarrow> Some v
                      | None \<Rightarrow> defaults_now w k)))
   \<and> getSettings_ref w =
        (if available (medium w) \<and> settings_slot (medium w) \<noteq> Corrupt
         then Copy (defaults_now w ++ persisted_settings (medium w)) else TheDefaults)
   \<and> deref w (getSettings_ref w) =
        (if available (medium w) then defaults_now w ++ persisted_settings (medium w)
         else defaults_now w)"
proof -
  have g: "getSettings_ref w =
        (if available (medium w) \<and> settings_slot (medium w) \<noteq> Corrupt
         then Copy (defaults_now w ++ persisted_settings (medium w)) else TheDefaults)"
    by (cases "settings_slot (medium w)")
       (simp_all add: getSettings_ref_def isStorageAvailable_def persisted_settings_def)
  have d: "deref w (getSettings_ref w) =
        (if available (medium w) then defaults_now w ++ persisted_settings (medium w)
         else defaults_now w)"
    unfolding g by (cases "settings_slot (medium w)") (simp_all add: deref_def persisted_settings_def)
  have "defaults_now w ++ (defaults_now w ++ m) ++ patch = defaults_now w ++ m ++ patch" for m
    by (simp add: map_add_idem)
  then have s: "available (medium w) \<longrightarrow>
      saveSettings_ref w patch =
        (True, w\<lparr>medium := (medium w)\<lparr>settings_slot :=
                   Stored (defaults_now w ++ persisted_settings (medium w) ++ patch)\<rparr>\<rparr>)"
    by (simp add: saveSettings_ref_def isStorageAvailable_def d Let_def)
  have f: "\<not> available (medium w) \<longrightarrow> saveSettings_ref w patch = (False, w)"
    by (simp add: saveSettings_ref_def isStorageAvailable_def)
  have k: "\<forall>k. (defaults_now w ++ persisted_settings (medium w) ++ patch) k =
          (case patch k of Some v \<Rightarrow> Some v
           | None \<Rightarrow> (case persisted_settings (medium w) k of Some v \<Rightarrow> Some v
                      | None \<Rightarrow> defaults_now w k))"
    by (simp add: map_add_def split: option.splits)
  from s f k g d show ?thesis by (intro conjI)
qed

lemma settings_ref_loaded:
  "deref (loaded s) (getSettings_ref (loaded s)) = getSettings s"
  "saveSettings_ref (loaded s) patch
     = (fst (saveSettings s patch), loaded (snd (saveSettings s patch)))"
proof -
  show "deref (loaded s) (getSettings_ref (loaded s)) = getSettings s"
    by (cases "settings_slot s")
       (simp_all add: getSettings_ref_def getSettings_def deref_def loaded_def)
  then show "saveSettings_ref (loaded s) patch
     = (fst (saveSettings s patch), loaded (snd (saveSettings s patch)))"
    by (simp add: saveSettings_ref_def saveSettings_def loaded_def Let_def)
qed

text \<open>
  Claim C7 at the input on which the code departs from it. The medium refuses writes;
  the page reads the settings, and \<open>getSettings\<close> hands it the object of the defaults;
  the user switches to the dark theme, which the page writes into the object it holds.
  \<open>saveSettings\<close> persists nothing, and from then on \<open>getSettings\<close> returns the theme
  \<open>dark\<close> on a medium that is unavailable, where the claim promises the defaults, in
  which the theme is \<open>auto\<close>. The same happens on a medium that works when the stored
  text does not parse: there the value is persisted, and after \<open>resetSettings\<close> has
  removed it, \<open>getSettings\<close> still returns the theme \<open>dark\<close>; and after
  \<open>saveSettings({decimalPlaces: 4})\<close> it returns 4 decimal places with the theme \<open>dark\<close>,
  not with every other setting at its default.
\<close>

theorem getSettings_shares_defaults:
  "getSettings_ref (loaded offline_store) = TheDefaults
   \<and> deref (loaded offline_store) (getSettings_ref (loaded offline_store)) = DEFAULT_SETTINGS
   \<and> DEFAULT_SETTINGS ''themeMode'' = Some (VStr ''auto'')
   \<and> medium (after_update offline_store) = offline_store
   \<and> getSettings_ref (after_update offline_store) = TheDefaults
   \<and> deref (after_update offline_store) (getSettings_ref (after_update offline_store))
        ''themeMode'' = Some (VStr ''dark'')
   \<and> deref (after_update offline_store) (getSettings_ref (after_update offline_store))
        \<noteq> DEFAULT_SETTINGS
   \<and> getSettings_ref (loaded corrupt_store) = TheDefaults
   \<and> settings_slot (medium after_reset) = Absent
   \<and> deref after_reset (getSettings_ref after_reset) ''themeMode'' = Some (VStr ''dark'')
   \<and> deref after_save (getSettings_ref after_save) ''decimalPlaces'' = Some (VNum 4)
   \<and> deref after_save (getSettings_ref after_save) ''themeMode'' = Some (VStr ''dark'')"
proof -
  have av: "\<not> available offline_store" "available corrupt_store"
    "settings_slot corrupt_store = Corrupt"
    by (simp_all add: offline_store_def corrupt_store_def fresh_facts)
  have l: "getSettings_ref (loaded offline_store) = TheDefaults"
    "getSettings_ref (loaded corrupt_store) = TheDefaults"
    by (simp_all add: getSettings_ref_def loaded_def isStorageAvailable_def av)
  have a: "assign (loaded s) TheDefaults ''themeMode'' (VStr ''dark'')
      = (TheDefaults, \<lparr>medium = s, defaults_now = DEFAULT_SETTINGS(''themeMode'' \<mapsto> VStr ''dark'')\<rparr>)"
    for s
    by (simp add: assign_def loaded_def)
  have u: "after_update offline_store =
      \<lparr>medium = offline_store, defaults_now = DEFAULT_SETTINGS(''themeMode'' \<mapsto> VStr ''dark'')\<rparr>"
    unfolding after_update_def l updateSetting_def a
    by (simp add: saveSettings_ref_def isStorageAvailable_def av)
  have c: "defaults_now (after_update corrupt_store) = DEFAULT_SETTINGS(''themeMode'' \<mapsto> VStr ''dark'')"
    "available (medium (after_update corrupt_store))"
    unfolding after_update_def l updateSetting_def a
    by (simp_all add: saveSettings_ref_def isStorageAvailable_def av Let_def)
  have g: "getSettings_ref (after_update offline_store) = TheDefaults"
    unfolding u by (simp add: getSettings_ref_def isStorageAvailable_def av)
  have dark: "deref (after_update offline_store) (getSettings_ref (after_update offline_store))
        ''themeMode'' = Some (VStr ''dark'')"
    unfolding g by (simp add: deref_def u)
  have auto: "DEFAULT_SETTINGS ''themeMode'' = Some (VStr ''auto'')"
    by (simp add: DEFAULT_SETTINGS_def)
  have ne: "deref (after_update offline_store) (getSettings_ref (after_update offline_store))
        \<noteq> DEFAULT_SETTINGS"
  proof
    assume "deref (after_update offline_store) (getSettings_ref (after_update offline_store))
        = DEFAULT_SETTINGS"
    with dark have "DEFAULT_SETTINGS ''themeMode'' = Some (VStr ''dark'')" by (simp only:)
    with auto show False by simp
  qed
  have r: "settings_slot (medium after_reset) = Absent" "available (medium after_reset)"
    "defaults_now after_reset = DEFAULT_SETTINGS(''themeMode'' \<mapsto> VStr ''dark'')"
    using c
    by (simp_all add: after_reset_def resetSettings_ref_def resetSettings_def
        isStorageAvailable_def)
  have gr: "getSettings_ref after_reset = Copy (DEFAULT_SETTINGS(''themeMode'' \<mapsto> VStr ''dark''))"
    by (simp add: getSettings_ref_def isStorageAvailable_def r)
  then have r4: "deref after_reset (getSettings_ref after_reset) ''themeMode'' = Some (VStr ''dark'')"
    by (simp add: deref_def)
  have p: "persisted_settings (medium after_reset) = Map.empty"
    by (simp add: persisted_settings_def r)
  have sv: "after_save = after_reset\<lparr>medium := (medium after_reset)\<lparr>settings_slot :=
      Stored (DEFAULT_SETTINGS(''themeMode'' \<mapsto> VStr ''dark'', ''decimalPlaces'' \<mapsto> VNum 4))\<rparr>\<rparr>"
    using settings_merge_ref [of after_reset "[''decimalPlaces'' \<mapsto> VNum 4]"] r(2)
    by (simp add: after_save_def p r(3))
  have gs: "getSettings_ref after_save
      = Copy ((DEFAULT_SETTINGS(''themeMode'' \<mapsto> VStr ''dark''))
               ++ DEFAULT_SETTINGS(''themeMode'' \<mapsto> VStr ''dark'', ''decimalPlaces'' \<mapsto> VNum 4))"
    unfolding sv by (simp add: getSettings_ref_def isStorageAvailable_def r)
  have s4: "deref after_save (getSettings_ref after_save) ''decimalPlaces'' = Some (VNum 4)"
    "deref after_save (getSettings_ref after_save) ''themeMode'' = Some (VStr ''dark'')"
    unfolding gs by (simp_all add: deref_def)
  have d0: "deref (loaded offline_store) (getSettings_ref (loaded offline_store)) = DEFAULT_SETTINGS"
    unfolding l by (simp add: deref_def loaded_def)
  have m: "medium (after_update offline_store) = offline_store" by (simp add: u)
  from l d0 auto m g dark ne r(1) r4 s4 show ?thesis by (intro conjI)
qed


text \<open>
  Claim C6. The history key never holds more than 100 entries: every operation of the
  store, and every sequence of operations, keeps the bound, and what \<open>getHistory\<close>
  returns is within it. From an empty history, a run of \<open>addToHistory\<close> calls leaves the
  100 most recent entries, most recent first; after 101 calls these are all entries but
  the first one added, in reverse order of addition.
\<close>

theorem history_bounded:
  "(hist_bounded s \<longrightarrow> hist_bounded (run_op s op))
   \<and> (hist_bounded s \<longrightarrow> hist_bounded (run_ops s ops))
   \<and> (history_slot s = Absent \<longrightarrow> hist_bounded (run_ops s ops))
   \<and> (hist_bounded s \<longrightarrow> length (getHistory s limit) \<le> 100)
   \<and> (available s \<and> parse_list (history_slot s) = Some [] \<longrightarrow>
        getHistory (add_all s items) None = take 100 (rev (entries_of s items)))
   \<and> (available s \<and> parse_list (history_slot s) = Some [] \<and> length items = 101 \<longrightarrow>
        getHistory (add_all s items) None = rev (tl (entries_of s items))
        \<and> length (getHistory (add_all s items) None) = 100)"
proof (intro conjI impI)
  assume a: "available s \<and> parse_list (history_slot s) = Some []"
  then show g: "getHistory (add_all s items) None = take 100 (rev (entries_of s items))"
    using add_all_history [of s "[]" items]
    by (simp add: getHistory_def isStorageAvailable_def)
next
  assume a: "available s \<and> parse_list (history_slot s) = Some [] \<and> length items = 101"
  have len: "length (entries ids i ts t xs) = length xs" for ids i ts t xs
    by (induction xs arbitrary: i t) simp_all
  have g: "getHistory (add_all s items) None = take 100 (rev (entries_of s items))"
    using a add_all_history [of s "[]" items]
    by (simp add: getHistory_def isStorageAvailable_def)
  have l: "length (entries_of s items) = 101" using a by (simp add: entries_of_def len)
  then obtain e es where es: "entries_of s items = e # es" and "length es = 100"
    by (cases "entries_of s items") auto
  then show "getHistory (add_all s items) None = rev (tl (entries_of s items))"
    by (simp add: g)
  from l show "length (getHistory (add_all s items) None) = 100" by (simp add: g)
next
  assume "history_slot s = Absent"
  then have "hist_bounded s" by (simp add: hist_bounded_def)
  then show "hist_bounded (run_ops s ops)" by (rule run_ops_bounded)
qed (simp_all add: run_op_bounded run_ops_bounded getHistory_bounded)


theorem history_bounded_witness:
  "hist_bounded fresh_store
   \<and> hist_bounded (run_op fresh_store (AddToHistory raw_calculation))
   \<and> hist_bounded (run_ops fresh_store [SaveScenario scenario_a, ClearHistory])
   \<and> available fresh_store \<and> parse_list (history_slot fresh_store) = Some []
   \<and> length (replicate 101 raw_calculation) = 101
   \<and> length (getHistory (add_all fresh_store (replicate 101 raw_calculation)) None) = 100
   \<and> getHistory (add_all fresh_store (replicate 101 raw_calculation)) None
       = rev (tl (entries_of fresh_store (replicate 101 raw_calculation)))"
proof -
  have a: "hist_bounded fresh_store" "available fresh_store"
    "parse_list (history_slot fresh_store) = Some []"
    by (simp_all add: fresh_store_def hist_bounded_def parse_list_def)
  have l: "length (replicate 101 raw_calculation) = 101" by simp
  note c = history_bounded [of fresh_store "AddToHistory raw_calculation"
        "[SaveScenario scenario_a, ClearHistory]" None "replicate 101 raw_calculation"]
  from c a have b: "hist_bounded (run_op fresh_store (AddToHistory raw_calculation))"
    "hist_bounded (run_ops fresh_store [SaveScenario scenario_a, ClearHistory])"
    by blast+
  from c a l have g:
    "getHistory (add_all fresh_store (replicate 101 raw_calculation)) None
       = rev (tl (entries_of fresh_store (replicate 101 raw_calculation)))"
    "length (getHistory (add_all fresh_store (replicate 101 raw_calculation)) None) = 100"
    by blast+
  show ?thesis using a l b g by blast
qed

text \<open>
  Claim C2, as stated: it fails when \<open>saveScenario\<close> is called twice with the same
  scenario. The object literal of \<open>addToHistory\<close> puts the generated \<open>id\<close> first and
  spreads the copied item over it, so an item that has an \<open>id\<close> keeps it: both history
  entries carry the \<open>id\<close> of the scenario, \<open>s1\<close>, and the history ids are not distinct.
\<close>

theorem saveScenario_twice_counterexample:
  "ids_of (getHistory (run_ops fresh_store [SaveScenario scenario_a, SaveScenario scenario_a]) None)
     = [Some (VStr ''s1''), Some (VStr ''s1'')]
   \<and> \<not> distinct (ids_of (getHistory
         (run_ops fresh_store [SaveScenario scenario_a, SaveScenario scenario_a]) None))"
  by (simp add: save_a_twice ids_of_def history_entry_props scenario_a_wf)


text \<open>
  Claim C2, amended. On a medium that works and a history key that is absent or parses,
  every call to \<open>addToHistory\<close> succeeds and prepends an entry (the list is then cut to
  100); when the medium does not work or the text of the key does not parse, the call
  returns \<open>false\<close> and leaves everything as it was. The entry carries the generated
  identifier only when the item it copies has no \<open>id\<close> of its own, and the \<open>id\<close> of the
  item otherwise (so an entry made by \<open>saveScenario\<close> carries the \<open>id\<close> of the scenario);
  it carries the time of the call as \<open>addedAt\<close> and every other property of the item.
  The history ids stay distinct when the \<open>id\<close> of the new entry is not yet in the
  history; in particular, they stay distinct over any run of \<open>addToHistory\<close> on items
  without an \<open>id\<close>, as long as \<open>generateId\<close> never returns the same identifier twice, nor
  one that the history holds already.
\<close>

theorem addToHistory_entry_ids:
  "(available s \<and> parse_list (history_slot s) = Some h \<longrightarrow>
      fst (addToHistory s item) = True
      \<and> getHistory (snd (addToHistory s item)) None
          = take 100 (history_entry (id_seq s (id_next s)) (time_seq s (time_next s)) item # h))
   \<and> (\<not> available s \<or> parse_list (history_slot s) = None \<longrightarrow>
        addToHistory s item = (False, s))
   \<and> history_entry i t item ''id''
        = (case item ''id'' of Some v \<Rightarrow> Some v | None \<Rightarrow> Some (VStr i))
   \<and> history_entry i t item ''addedAt'' = Some (VStr t)
   \<and> (k \<noteq> ''id'' \<and> k \<noteq> ''addedAt'' \<longrightarrow> history_entry i t item k = item k)
   \<and> (available s \<and> parse_list (history_slot s) = Some h \<and> distinct (ids_of h)
        \<and> history_entry (id_seq s (id_next s)) (time_seq s (time_next s)) item ''id''
            \<notin> set (ids_of h) \<longrightarrow>
        distinct (ids_of (getHistory (snd (addToHistory s item)) None)))
   \<and> (available s \<and> parse_list (history_slot s) = Some h \<and> distinct (ids_of h)
        \<and> inj (id_seq s) \<and> list_all (\<lambda>x. x ''id'' = None) items
        \<and> (\<forall>n. id_next s \<le> n \<longrightarrow> Some (VStr (id_seq s n)) \<notin> set (ids_of h)) \<longrightarrow>
        distinct (ids_of (getHistory (add_all s items) None)))"
proof (intro conjI impI)
  assume a: "available s \<and> parse_list (history_slot s) = Some h"
  then show "fst (addToHistory s item) = True" by (simp add: addToHistory_step)
  from a show "getHistory (snd (addToHistory s item)) None
          = take 100 (history_entry (id_seq s (id_next s)) (time_seq s (time_next s)) item # h)"
    by (simp add: getHistory_after_add)
next
  assume "\<not> available s \<or> parse_list (history_slot s) = None"
  then show "addToHistory s item = (False, s)" by (rule addToHistory_fail)
next
  assume a: "available s \<and> parse_list (history_slot s) = Some h \<and> distinct (ids_of h)
        \<and> history_entry (id_seq s (id_next s)) (time_seq s (time_next s)) item ''id''
            \<notin> set (ids_of h)"
  let ?e = "history_entry (id_seq s (id_next s)) (time_seq s (time_next s)) item"
  from a have "distinct (ids_of (?e # h))" by (simp add: ids_of_def)
  then have "distinct (take 100 (ids_of (?e # h)))" by (rule distinct_take)
  then have "distinct (ids_of (take 100 (?e # h)))" by (simp only: ids_of_def take_map)
  with a show "distinct (ids_of (getHistory (snd (addToHistory s item)) None))"
    by (simp only: getHistory_after_add)
next
  assume a: "available s \<and> parse_list (history_slot s) = Some h \<and> distinct (ids_of h)
        \<and> inj (id_seq s) \<and> list_all (\<lambda>x. x ''id'' = None) items
        \<and> (\<forall>n. id_next s \<le> n \<longrightarrow> Some (VStr (id_seq s n)) \<notin> set (ids_of h))"
  then show "distinct (ids_of (getHistory (add_all s items) None))"
    by (intro add_all_distinct [of s h]) simp_all
qed (simp_all add: history_entry_props)

theorem addToHistory_entry_ids_witness:
  "available (run_op fresh_store (SaveScenario scenario_a))
   \<and> ids_of (getHistory (run_op fresh_store (SaveScenario scenario_a)) None) = [Some (VStr ''s1'')]
   \<and> inj (id_seq fresh_store)
   \<and> list_all (\<lambda>x. x ''id'' = None) [raw_calculation, raw_calculation]
   \<and> distinct (ids_of (getHistory
        (add_all (run_op fresh_store (SaveScenario scenario_a)) [raw_calculation, raw_calculation])
        None))
   \<and> length (getHistory
        (add_all (run_op fresh_store (SaveScenario scenario_a)) [raw_calculation, raw_calculation])
        None) = 3
   \<and> fst (addToHistory fresh_store scenario_a) = True
   \<and> addToHistory (fresh_store\<lparr>history_slot := Corrupt\<rparr>) scenario_a
       = (False, fresh_store\<lparr>history_slot := Corrupt\<rparr>)
   \<and> history_entry ''id-'' ''t'' scenario_a ''id'' = Some (VStr ''s1'')
   \<and> history_entry ''id-'' ''t'' raw_calculation ''id'' = Some (VStr ''id-'')"
proof -
  let ?s = "run_op fresh_store (SaveScenario scenario_a)"
  let ?h = "[history_entry (id_seq fresh_store 0) (time_seq fresh_store 0) scenario_a]"
  have s: "?s = fresh_store\<lparr>id_next := 1, time_next := 1, scenarios_slot := Stored [scenario_a],
               history_slot := Stored ?h\<rparr>"
    using fresh_save_a by simp
  have a: "available fresh_store" "parse_list (history_slot fresh_store) = Some []"
    "list_all (\<lambda>x. x ''id'' = None) [raw_calculation, raw_calculation]"
    by (simp_all add: fresh_store_def parse_list_def raw_calculation_def)
  have b: "available ?s" "parse_list (history_slot ?s) = Some ?h" "id_next ?s = 1"
    "id_seq ?s = id_seq fresh_store" "time_seq ?s = time_seq fresh_store" "time_next ?s = 1"
    unfolding s by (simp_all add: fresh_store_def parse_list_def)
  have h: "ids_of ?h = [Some (VStr ''s1'')]"
    by (simp add: ids_of_def history_entry_props scenario_a_wf)
  have g: "getHistory ?s None = ?h"
    using b(1,2) by (simp add: getHistory_def isStorageAvailable_def)
  have fr: "\<forall>n. id_next ?s \<le> n \<longrightarrow> Some (VStr (id_seq ?s n)) \<notin> set (ids_of ?h)"
    unfolding h b by (simp add: fresh_store_def)
  have inj: "inj (id_seq ?s)" unfolding b by (rule inj_fresh_ids)
  have dh: "distinct (ids_of ?h)" by (simp add: h)
  note c = addToHistory_entry_ids [of ?s ?h scenario_a "''id-''" "''t''" "''name''"
        "[raw_calculation, raw_calculation]"]
  note d = addToHistory_entry_ids [of fresh_store "[]" raw_calculation "''id-''" "''t''" "''name''" "[]"]
  note e = addToHistory_entry_ids [of "fresh_store\<lparr>history_slot := Corrupt\<rparr>" "[]" scenario_a
        "''id-''" "''t''" "''name''" "[]"]
  note f = addToHistory_entry_ids [of fresh_store "[]" scenario_a "''id-''" "''t''" "''name''" "[]"]
  from c b(1,2) dh inj a(3) fr
  have 1: "distinct (ids_of (getHistory (add_all ?s [raw_calculation, raw_calculation]) None))"
    by blast
  have l: "length (getHistory (add_all ?s [raw_calculation, raw_calculation]) None) = 3"
    using add_all_history [OF b(1,2), of "[raw_calculation, raw_calculation]"]
    by (simp add: getHistory_def isStorageAvailable_def entries_of_def)
  from f a have 2: "fst (addToHistory fresh_store scenario_a) = True" by blast
  have "parse_list (history_slot (fresh_store\<lparr>history_slot := Corrupt\<rparr>)) = None"
    by (simp add: parse_list_def)
  with e have 5: "addToHistory (fresh_store\<lparr>history_slot := Corrupt\<rparr>) scenario_a
       = (False, fresh_store\<lparr>history_slot := Corrupt\<rparr>)"
    by blast
  from c have 3: "history_entry ''id-'' ''t'' scenario_a ''id'' = Some (VStr ''s1'')"
    by (simp add: scenario_a_def)
  from d have 4: "history_entry ''id-'' ''t'' raw_calculation ''id'' = Some (VStr ''id-'')"
    by (simp add: raw_calculation_def)
  show ?thesis using a inj_fresh_ids b(1) g h 1 l 2 3 4 5 by simp
qed

text \<open>
  Claim C3, as stated: it fails for the history. \<open>importData\<close> reads the scenarios and the
  settings of a snapshot and never its history; the history of the importing store is
  what its own calls of \<open>saveScenario\<close> add. A store in which a scenario was saved and the
  history then cleared exports an empty history; after the import the history has one
  entry.
\<close>

theorem import_rebuilds_history_counterexample:
  "getHistory cleared_store None = []
   \<and> fst (importData fresh_store (json_of (fst (exportData cleared_store)))) = Imported 1
   \<and> length (getHistory
        (snd (importData fresh_store (json_of (fst (exportData cleared_store))))) None) = 1
   \<and> getHistory (snd (importData fresh_store (json_of (fst (exportData cleared_store))))) None
       \<noteq> getHistory cleared_store None"
proof -
  have h: "getHistory cleared_store None = []"
    by (rule getHistory_readable) (simp_all add: cleared_store_slots parse_list_def)
  have sc: "getScenarios cleared_store = [scenario_a]"
    by (rule getScenarios_readable) (simp_all add: cleared_store_slots parse_list_def)
  have g: "getHistory (snd (saveSettings (save_all fresh_store [scenario_a])
              (getSettings cleared_store))) None
      = take 100 (rev (entries_of fresh_store [scenario_a]))"
    by (rule import_into_empty) (simp_all add: fresh_facts scenarios_wf)
  show ?thesis
    unfolding import_of_export sc fst_conv snd_conv g h
    by (simp add: entries_of_def)
qed

text \<open>
  Claim C3, amended. \<open>exportData\<close> followed by \<open>importData\<close> of the snapshot into an empty
  store on a medium that works reports the number of scenarios and reproduces the
  scenarios (same ids, same values, same order) and the settings, when every exported
  scenario has an \<open>id\<close> and a \<open>savedAt\<close> and no two have the same \<open>id\<close>. The history is not
  taken from the snapshot: it is rebuilt with one new entry for each imported scenario,
  most recent first and cut to 100, each with the \<open>id\<close> of its scenario and the time of
  the import.
\<close>

theorem export_import_round_trip:
  assumes "available e" and "scenarios_slot e = Absent" and "history_slot e = Absent"
    and "settings_slot e = Absent"
    and "list_all well_formed_scenario (getScenarios s)" and "no_id_clash (getScenarios s)"
  shows "fst (importData e (json_of (fst (exportData s)))) = Imported (length (getScenarios s))
    \<and> getScenarios (snd (importData e (json_of (fst (exportData s))))) = getScenarios s
    \<and> getSettings (snd (importData e (json_of (fst (exportData s))))) = getSettings s
    \<and> getHistory (snd (importData e (json_of (fst (exportData s))))) None
        = take 100 (rev (entries_of e (getScenarios s)))
    \<and> ids_of (getHistory (snd (importData e (json_of (fst (exportData s))))) None)
        = take 100 (rev (ids_of (getScenarios s)))"
proof -
  note g = import_into_empty [OF assms, of "getSettings s"]
  have g4: "ids_of (take 100 (rev (entries_of e (getScenarios s))))
      = take 100 (rev (ids_of (getScenarios s)))"
    unfolding ids_of_take_rev entries_of_def by (simp add: entries_keep_ids assms(5))
  show ?thesis
    unfolding import_of_export fst_conv snd_conv g g4 getSettings_absorb by simp
qed


theorem export_import_round_trip_witness:
  "available fresh_store \<and> scenarios_slot fresh_store = Absent
   \<and> history_slot fresh_store = Absent \<and> settings_slot fresh_store = Absent
   \<and> getScenarios two_scenario_store = [scenario_a, scenario_b]
   \<and> list_all well_formed_scenario [scenario_a, scenario_b]
   \<and> no_id_clash [scenario_a, scenario_b]
   \<and> fst (importData fresh_store (json_of (fst (exportData two_scenario_store)))) = Imported 2
   \<and> getScenarios (snd (importData fresh_store (json_of (fst (exportData two_scenario_store)))))
       = [scenario_a, scenario_b]
   \<and> getSettings (snd (importData fresh_store (json_of (fst (exportData two_scenario_store)))))
       = getSettings two_scenario_store
   \<and> ids_of (getHistory
        (snd (importData fresh_store (json_of (fst (exportData two_scenario_store))))) None)
       = [Some (VStr ''s2''), Some (VStr ''s1'')]"
proof -
  have sc: "getScenarios two_scenario_store = [scenario_a, scenario_b]"
    by (rule getScenarios_readable) (simp_all add: two_scenario_store_slots parse_list_def)
  have wf: "list_all well_formed_scenario [scenario_a, scenario_b]"
    "no_id_clash [scenario_a, scenario_b]"
    by (simp_all add: scenarios_wf)
  note c = export_import_round_trip [of fresh_store two_scenario_store, unfolded sc, OF fresh_facts(1-4) wf]
  have i: "ids_of [scenario_a, scenario_b] = [Some (VStr ''s1''), Some (VStr ''s2'')]"
    by (simp add: ids_of_def scenario_a_def scenario_b_def)
  from c have "ids_of (getHistory
        (snd (importData fresh_store (json_of (fst (exportData two_scenario_store))))) None)
       = take 100 (rev (ids_of [scenario_a, scenario_b]))"
    by blast
  then have h: "ids_of (getHistory
        (snd (importData fresh_store (json_of (fst (exportData two_scenario_store))))) None)
       = [Some (VStr ''s2''), Some (VStr ''s1'')]"
    by (simp add: i)
  from c have r: "fst (importData fresh_store (json_of (fst (exportData two_scenario_store))))
       = Imported 2"
    "getScenarios (snd (importData fresh_store (json_of (fst (exportData two_scenario_store)))))
       = [scenario_a, scenario_b]"
    "getSettings (snd (importData fresh_store (json_of (fst (exportData two_scenario_store)))))
       = getSettings two_scenario_store"
    by simp_all
  show ?thesis using fresh_facts(1-4) sc wf r h by blast
qed


end
